theory Spec2Isabelle
  imports Main "HOL-Library.Multiset"
begin

section \<open>JavaScript values\<close>

text \<open>
  A JavaScript string is a \<^typ>\<open>string\<close>: one \<^typ>\<open>char\<close> per unit of text, non-ASCII
  text being given by its UTF-8 bytes as in the source files. All the code below branches
  on ASCII characters only. Numbers are the integer-valued ones (\<^typ>\<open>int\<close>), whose
  \<open>String(n)\<close> is the decimal numeral; fractional values, \<open>NaN\<close>, the infinities and
  magnitudes beyond \<open>2^53\<close> are floating point and are not modelled.
\<close>

datatype jsval = Undefined | Null | Str string | Num int

definition dquote :: char where "dquote = CHR 0x22"
definition backslash :: char where "backslash = CHR 0x5C"
definition backtick :: char where "backtick = CHR 0x60"
definition dollar :: char where "dollar = CHR 0x24"

definition digit_char :: "nat \<Rightarrow> char" where
  "digit_char d = ''0123456789'' ! d"

fun decimal_nat :: "nat \<Rightarrow> string" where
  "decimal_nat n =
     (if n < 10 then [digit_char n] else decimal_nat (n div 10) @ [digit_char (n mod 10)])"

declare decimal_nat.simps [simp del]

text \<open>\<open>String(n)\<close> for an integer-valued number.\<close>

definition String_number :: "int \<Rightarrow> string" where
  "String_number n = (if n < 0 then CHR ''-'' # decimal_nat (nat (- n)) else decimal_nat (nat n))"

text \<open>\<open>String(v)\<close>.\<close>

fun String_js :: "jsval \<Rightarrow> string" where
  "String_js Undefined = ''undefined''"
| "String_js Null = ''null''"
| "String_js (Str s) = s"
| "String_js (Num n) = String_number n"

definition startsWith :: "string \<Rightarrow> string \<Rightarrow> bool" where
  "startsWith s p \<longleftrightarrow> take (length p) s = p"

section \<open>Shell quoting\<close>

text \<open>
  \<^verbatim>\<open>const SAFE_VALUE = /^[0-9A-Za-z_.@%+=:,/\\-]+$/;\<close>
  The class holds the three ranges, the listed punctuation, the backslash and the hyphen.
\<close>

definition in_range :: "char \<Rightarrow> char \<Rightarrow> char \<Rightarrow> bool" where
  "in_range lo hi c \<longleftrightarrow> (of_char lo :: nat) \<le> of_char c \<and> (of_char c :: nat) \<le> of_char hi"

definition SAFE_VALUE_class :: "char \<Rightarrow> bool" where
  "SAFE_VALUE_class c \<longleftrightarrow>
     in_range CHR ''0'' CHR ''9'' c \<or> in_range CHR ''A'' CHR ''Z'' c \<or> in_range CHR ''a'' CHR ''z'' c
     \<or> c \<in> set ''_.@%+=:,/'' \<or> c = backslash \<or> c = CHR ''-''"

text \<open>\<open>SAFE_VALUE.test(part)\<close>: one or more characters of the class, and nothing else.\<close>

definition SAFE_VALUE_test :: "string \<Rightarrow> bool" where
  "SAFE_VALUE_test part \<longleftrightarrow> part \<noteq> [] \<and> list_all SAFE_VALUE_class part"

text \<open>
  \<^verbatim>\<open>part.replace(/(["\\$`])/g, "\\$1")\<close>: scanning from the left, every character of the
  class is replaced by a backslash followed by itself.
\<close>

definition escape_class :: "char \<Rightarrow> bool" where
  "escape_class c \<longleftrightarrow> c = dquote \<or> c = backslash \<or> c = dollar \<or> c = backtick"

fun replace_escape :: "string \<Rightarrow> string" where
  "replace_escape [] = []"
| "replace_escape (c # cs) =
     (if escape_class c then backslash # c # replace_escape cs else c # replace_escape cs)"

definition shellQuote :: "jsval \<Rightarrow> string" where
  "shellQuote rawPart =
     (if rawPart = Undefined \<or> rawPart = Null then []
      else let part = String_js rawPart in
        if part = [] then []
        else if startsWith part ''-'' then part
        else if SAFE_VALUE_test part then part
        else let escaped = replace_escape part in [dquote] @ escaped @ [dquote])"

subsection \<open>The quoting rules in the words of the specification\<close>

definition ascii_letters :: string where
  "ascii_letters = ''ABCDEFGHIJKLMNOPQRSTUVWXYZabcdefghijklmnopqrstuvwxyz''"

definition ascii_digits :: string where
  "ascii_digits = ''0123456789''"

text \<open>ASCII letters, digits, and the characters \<open>_ . @ % + = : , / \ -\<close>.\<close>

definition spec_safe_char :: "char \<Rightarrow> bool" where
  "spec_safe_char c \<longleftrightarrow>
     c \<in> set ascii_letters \<or> c \<in> set ascii_digits \<or> c \<in> set ''_.@%+=:,/-'' \<or> c = backslash"

text \<open>
  Each double quote, backslash, dollar sign and backtick is preceded by one backslash;
  no other character is altered.
\<close>

definition spec_escape_char :: "char \<Rightarrow> string" where
  "spec_escape_char c =
     (if c = dquote \<or> c = backslash \<or> c = dollar \<or> c = backtick then [backslash, c] else [c])"

definition is_nullish :: "jsval \<Rightarrow> bool" where
  "is_nullish v \<longleftrightarrow> v = Undefined \<or> v = Null"

section \<open>Command assembly\<close>

text \<open>\<open>Array.prototype.join\<close> on an array of strings.\<close>

fun join :: "string \<Rightarrow> string list \<Rightarrow> string" where
  "join sep [] = []"
| "join sep [x] = x"
| "join sep (x # y # ys) = x @ sep @ join sep (y # ys)"

text \<open>
  \<^verbatim>\<open>parts.map((part) => (typeof part === "number" ? String(part) : part))
       .filter((part) => part !== undefined && part !== null && part !== "")
       .map(shellQuote).join(" ")\<close>
\<close>

definition coerce_number :: "jsval \<Rightarrow> jsval" where
  "coerce_number part = (case part of Num n \<Rightarrow> Str (String_number n) | _ \<Rightarrow> part)"

definition kept :: "jsval \<Rightarrow> bool" where
  "kept part \<longleftrightarrow> part \<noteq> Undefined \<and> part \<noteq> Null \<and> part \<noteq> Str []"

definition joinCommand :: "jsval list \<Rightarrow> string" where
  "joinCommand parts = join '' '' (map shellQuote (filter kept (map coerce_number parts)))"

text \<open>
  White space as \<open>String.prototype.trim\<close> and \<open>parseInt\<close> strip it, within ASCII: tab, line
  feed, vertical tab, form feed, carriage return and space.
\<close>

definition is_whitespace :: "char \<Rightarrow> bool" where
  "is_whitespace c \<longleftrightarrow> c \<in> set [CHR 0x09, CHR 0x0A, CHR 0x0B, CHR 0x0C, CHR 0x0D, CHR 0x20]"

definition is_line_break :: "char \<Rightarrow> bool" where
  "is_line_break c \<longleftrightarrow> c = CHR 0x0A \<or> c = CHR 0x0D"

definition trim :: "string \<Rightarrow> string" where
  "trim s = rev (dropWhile is_whitespace (rev (dropWhile is_whitespace s)))"

section \<open>Form extraction\<close>

text \<open>
  What the builders read from a form: \<open>field_value\<close> is the raw value of the input,
  textarea or select registered under a name (\<open>None\<close> when \<open>namedItem\<close> gives no such
  control), \<open>checked_values\<close> the values of the checked inputs of a name in document
  order, \<open>input_checked\<close> whether \<open>namedItem\<close> is an input that is checked.
\<close>

record form =
  field_value :: "string \<Rightarrow> string option"
  checked_values :: "string \<Rightarrow> string list"
  input_checked :: "string \<Rightarrow> bool"

definition getFieldValue :: "form \<Rightarrow> string \<Rightarrow> string" where
  "getFieldValue form name = (case field_value form name of None \<Rightarrow> [] | Some v \<Rightarrow> trim v)"

definition getCheckedValues :: "form \<Rightarrow> string \<Rightarrow> string list" where
  "getCheckedValues form name = checked_values form name"

text \<open>
  \<^verbatim>\<open>value.split(/[\r\n,;]+/)\<close>: the pieces between maximal runs of separators; a run at
  either end leaves an empty piece there.
\<close>

definition list_separator :: "char \<Rightarrow> bool" where
  "list_separator c \<longleftrightarrow> c = CHR 0x0D \<or> c = CHR 0x0A \<or> c = CHR '','' \<or> c = CHR '';''"

function split_runs :: "(char \<Rightarrow> bool) \<Rightarrow> string \<Rightarrow> string \<Rightarrow> string list" where
  "split_runs sep piece [] = [piece]"
| "split_runs sep piece (c # cs) =
     (if sep c then piece # split_runs sep [] (dropWhile sep cs)
      else split_runs sep (piece @ [c]) cs)"
  by pat_completeness auto
termination
  by (relation "measure (\<lambda>(sep, piece, s). length s)")
     (auto simp: less_Suc_eq_le length_dropWhile_le)

definition parseList :: "string \<Rightarrow> string list" where
  "parseList value =
     (if value = [] then []
      else filter (\<lambda>item. item \<noteq> []) (map trim (split_runs list_separator [] value)))"

text \<open>
  \<open>Number.parseInt(value, 10)\<close>: leading white space is skipped, one sign is read, then
  the longest run of decimal digits; no digit gives \<open>NaN\<close>, here \<open>None\<close>.
\<close>

definition is_digit :: "char \<Rightarrow> bool" where
  "is_digit c \<longleftrightarrow> in_range CHR ''0'' CHR ''9'' c"

definition digit_value :: "char \<Rightarrow> nat" where
  "digit_value c = of_char c - 48"

definition Number_parseInt10 :: "string \<Rightarrow> int option" where
  "Number_parseInt10 s =
     (let t = dropWhile is_whitespace s;
          negative = startsWith t ''-'';
          u = (if startsWith t ''-'' \<or> startsWith t ''+'' then tl t else t);
          z = takeWhile is_digit u;
          mathInt = foldl (\<lambda>a c. 10 * a + digit_value c) 0 z
      in if z = [] then None
         else Some (if negative then - int mathInt else int mathInt))"

definition parseInteger :: "string \<Rightarrow> int option" where
  "parseInteger value = (if value = [] then None else Number_parseInt10 value)"

text \<open>The test \<open>if (limit)\<close> on the result of \<open>parseInteger\<close>: \<open>null\<close> and \<open>0\<close> are falsy.\<close>

definition truthy_number :: "int option \<Rightarrow> bool" where
  "truthy_number limit \<longleftrightarrow> (case limit of None \<Rightarrow> False | Some n \<Rightarrow> n \<noteq> 0)"

section \<open>Command builders\<close>

definition DEFAULT_COMMANDS_killFabriks :: string where
  "DEFAULT_COMMANDS_killFabriks = ''python killFabriks.py''"

text \<open>\<open>parts.push("--flag", value)\<close> for each value of a list, in order.\<close>

definition push_each :: "string \<Rightarrow> string list \<Rightarrow> jsval list" where
  "push_each flag values = concat (map (\<lambda>v. [Str flag, Str v]) values)"

text \<open>\<open>if (cond) parts.push(...)\<close>.\<close>

definition push_if :: "bool \<Rightarrow> 'a list \<Rightarrow> 'a list" where
  "push_if cond tokens = (if cond then tokens else [])"

text \<open>\<open>getFieldValue(form, name) || fallback\<close>.\<close>

definition value_or :: "string \<Rightarrow> string \<Rightarrow> string" where
  "value_or v fallback = (if v = [] then fallback else v)"

text \<open>
  A builder starts from the interpreter and the script name and pushes tokens onto
  \<open>parts\<close> field by field; the list below is \<open>parts\<close> at the \<open>return\<close>, the pushes
  appended in the order of the source. Four builders read an integer field:
  \<^verbatim>\<open>const limit = parseInteger(getFieldValue(form, "limit"));
  if (limit) { parts.push("--limit", String(limit)); }\<close>
  For them the tokens pushed before and after these lines are named apart.
\<close>

definition limit_tokens :: "form \<Rightarrow> jsval list" where
  "limit_tokens form =
     (let limit = parseInteger (getFieldValue form ''limit'')
      in case limit of
           None \<Rightarrow> []
         | Some n \<Rightarrow> if truthy_number limit then [Str ''--limit'', Str (String_number n)] else [])"

definition login_parts :: "form \<Rightarrow> jsval list" where
  "login_parts form =
     [Str ''python'', Str ''Login.py'']
     @ push_each ''--account'' (getCheckedValues form ''account'')
     @ push_if (input_checked form ''verbose'') [Str ''--verbose'']"

definition login :: "form \<Rightarrow> string" where
  "login form = joinCommand (login_parts form)"

definition fabrik_parts :: "form \<Rightarrow> jsval list" where
  "fabrik_parts form =
     (let account = getFieldValue form ''account'';
          target = value_or (getFieldValue form ''target'') ''all''
      in [Str ''python'', Str ''getFabrik.py'']
         @ push_if (account \<noteq> []) [Str ''--account'', Str account]
         @ push_if (target \<noteq> [] \<and> target \<noteq> ''all'') [Str ''--target'', Str target]
         @ push_if (input_checked form ''verbose'') [Str ''--verbose''])"

definition fabrik :: "form \<Rightarrow> string" where
  "fabrik form = joinCommand (fabrik_parts form)"

definition items_before_limit :: "form \<Rightarrow> jsval list" where
  "items_before_limit form =
     (let account = getFieldValue form ''account'';
          dataset = value_or (getFieldValue form ''dataset'') ''all''
      in [Str ''python'', Str ''getItems.py'']
         @ push_if (account \<noteq> []) [Str ''--account'', Str account]
         @ push_if (dataset \<noteq> [] \<and> dataset \<noteq> ''all'') [Str ''--dataset'', Str dataset])"

definition items_after_limit :: "form \<Rightarrow> jsval list" where
  "items_after_limit form = push_if (input_checked form ''verbose'') [Str ''--verbose'']"

definition items_parts :: "form \<Rightarrow> jsval list" where
  "items_parts form = items_before_limit form @ limit_tokens form @ items_after_limit form"

definition items :: "form \<Rightarrow> string" where
  "items form = joinCommand (items_parts form)"

definition export_before_limit :: "string \<Rightarrow> form \<Rightarrow> jsval list" where
  "export_before_limit script form =
     [Str ''python'', Str script]
     @ push_each ''--account'' (getCheckedValues form ''account'')
     @ push_each ''--factory-id'' (parseList (getFieldValue form ''factory-ids''))
     @ push_each ''--factory-name'' (parseList (getFieldValue form ''factory-names''))"

definition export_common_after_limit :: "form \<Rightarrow> jsval list" where
  "export_common_after_limit form =
     (let outputDir = getFieldValue form ''output-dir'';
          definitionId = getFieldValue form ''definition-id'';
          exportFormatId = getFieldValue form ''export-format-id'';
          expprod = value_or (getFieldValue form ''expprod'') ''3'';
          exportEncoding = value_or (getFieldValue form ''export-encoding'') ''1''
      in push_if (outputDir \<noteq> [] \<and> outputDir \<noteq> ''CSVDATA'') [Str ''--output-dir'', Str outputDir]
         @ push_if (definitionId \<noteq> []) [Str ''--definition-id'', Str definitionId]
         @ push_if (exportFormatId \<noteq> []) [Str ''--export-format-id'', Str exportFormatId]
         @ push_if (expprod \<noteq> [] \<and> expprod \<noteq> ''3'') [Str ''--expprod'', Str expprod]
         @ push_if (exportEncoding \<noteq> [] \<and> exportEncoding \<noteq> ''1'')
             [Str ''--export-encoding'', Str exportEncoding])"

definition export_toggles :: "form \<Rightarrow> jsval list" where
  "export_toggles form =
     push_if (input_checked form ''skip-existing'') [Str ''--skip-existing'']
     @ push_if (input_checked form ''dry-run'') [Str ''--dry-run'']
     @ push_if (input_checked form ''verbose'') [Str ''--verbose'']"




definition exportLister_after_limit :: "form \<Rightarrow> jsval list" where
  "exportLister_after_limit form = export_common_after_limit form @ export_toggles form"

definition exportLister_parts :: "form \<Rightarrow> jsval list" where
  "exportLister_parts form =
     export_before_limit ''exportLister.py'' form @ limit_tokens form
     @ exportLister_after_limit form"

definition exportLister :: "form \<Rightarrow> string" where
  "exportLister form = joinCommand (exportLister_parts form)"

definition makeHTML_before_limit :: "form \<Rightarrow> jsval list" where
  "makeHTML_before_limit form =
     (let accounts = getCheckedValues form ''account'';
          inputBase = getFieldValue form ''input-base'';
          outputBase = getFieldValue form ''output-base'';
          delimiter = value_or (getFieldValue form ''delimiter'') '';''
      in [Str ''python'', Str ''makeHTML.py'']
         @ push_if (length accounts > 0) (Str ''--account'' # map Str accounts)
         @ push_if (inputBase \<noteq> [] \<and> inputBase \<noteq> ''CSVDATA'') [Str ''--input-base'', Str inputBase]
         @ push_if (outputBase \<noteq> [] \<and> outputBase \<noteq> ''readyhtml'')
             [Str ''--output-base'', Str outputBase]
         @ push_if (delimiter \<noteq> [] \<and> delimiter \<noteq> '';'') [Str ''--delimiter'', Str delimiter])"

definition makeHTML_after_limit :: "form \<Rightarrow> jsval list" where
  "makeHTML_after_limit form =
     push_if (input_checked form ''no-overwrite'') [Str ''--no-overwrite'']
     @ push_if (input_checked form ''verbose'') [Str ''--verbose'']"

definition makeHTML_parts :: "form \<Rightarrow> jsval list" where
  "makeHTML_parts form = makeHTML_before_limit form @ limit_tokens form @ makeHTML_after_limit form"

definition makeHTML :: "form \<Rightarrow> string" where
  "makeHTML form = joinCommand (makeHTML_parts form)"

section \<open>Selection state of the cleanup form\<close>

text \<open>
  A catalog record \<open>{ type, id, name, itemCount }\<close> and an entry of
  \<open>killState.selections\<close>, \<open>{ type, id, name, count }\<close>. A missing string property is the
  empty string (both are falsy), a missing or non-numeric count is \<open>None\<close>.
\<close>

record factory =
  f_type :: string
  f_id :: string
  f_name :: string
  f_itemCount :: "int option"

record selection =
  k_type :: string
  k_id :: string
  k_name :: string
  k_count :: "int option"

definition isFactorySelected :: "selection list \<Rightarrow> string \<Rightarrow> string \<Rightarrow> bool" where
  "isFactorySelected selections type ident =
     list_ex (\<lambda>entry. k_type entry = type \<and> k_id entry = ident) selections"

text \<open>
  \<open>addFactorySelection(factory)\<close>, the argument being \<open>None\<close> for a null one; the result is
  the returned flag and \<open>killState.selections\<close> afterwards.
\<close>

definition addFactorySelection ::
  "factory option \<Rightarrow> selection list \<Rightarrow> bool \<times> selection list" where
  "addFactorySelection arg selections =
     (case arg of
        None \<Rightarrow> (False, selections)
      | Some factory \<Rightarrow>
          if f_id factory = [] \<or> f_type factory = [] then (False, selections)
          else if isFactorySelected selections (f_type factory) (f_id factory)
            then (False, selections)
          else (True, selections @
                  [\<lparr>k_type = f_type factory, k_id = f_id factory,
                    k_name = value_or (f_name factory) [], k_count = f_itemCount factory\<rparr>]))"

text \<open>\<open>findIndex\<close> gives the first index whose element passes, or \<open>-1\<close>.\<close>

fun findIndex :: "('a \<Rightarrow> bool) \<Rightarrow> 'a list \<Rightarrow> int" where
  "findIndex P [] = - 1"
| "findIndex P (x # xs) =
     (if P x then 0 else (let i = findIndex P xs in if i = - 1 then - 1 else i + 1))"

text \<open>\<open>xs.splice(index, 1)\<close> for an index within the array.\<close>

definition splice1 :: "int \<Rightarrow> 'a list \<Rightarrow> 'a list" where
  "splice1 index xs = take (nat index) xs @ drop (nat index + 1) xs"

definition removeFactorySelection ::
  "string \<Rightarrow> string \<Rightarrow> selection list \<Rightarrow> bool \<times> selection list" where
  "removeFactorySelection type ident selections =
     (let index = findIndex (\<lambda>entry. k_type entry = type \<and> k_id entry = ident) selections
      in if index = - 1 then (False, selections) else (True, splice1 index selections))"

text \<open>
  The selections that the two operations can produce, starting from the empty list of a
  fresh page.
\<close>

datatype selection_op = Add "factory option" | Remove string string

fun apply_op :: "selection_op \<Rightarrow> selection list \<Rightarrow> selection list" where
  "apply_op (Add arg) selections = snd (addFactorySelection arg selections)"
| "apply_op (Remove type ident) selections = snd (removeFactorySelection type ident selections)"

definition selections_after :: "selection_op list \<Rightarrow> selection list" where
  "selections_after ops = foldl (\<lambda>selections op. apply_op op selections) [] ops"

section \<open>The cleanup builder\<close>

text \<open>\<open>value.replace(/c/g, r)\<close> for a single character \<open>c\<close>.\<close>

fun replace_char :: "char \<Rightarrow> string \<Rightarrow> string \<Rightarrow> string" where
  "replace_char c r [] = []"
| "replace_char c r (x # xs) = (if x = c then r @ replace_char c r xs else x # replace_char c r xs)"

text \<open>\<^verbatim>\<open>value.replace(/\\/g, "\\\\").replace(/"/g, '\\"')\<close>\<close>

definition escapeDoubleQuotes :: "string \<Rightarrow> string" where
  "escapeDoubleQuotes v =
     replace_char dquote [backslash, dquote] (replace_char backslash [backslash, backslash] v)"

definition buildKillAddCommand :: "string \<Rightarrow> string \<Rightarrow> string \<Rightarrow> string" where
  "buildKillAddCommand type ident name =
     (if ident = [] then []
      else let safeType = escapeDoubleQuotes (value_or type []);
               safeId = escapeDoubleQuotes ident;
               safeName = escapeDoubleQuotes (value_or name []);
               snippet = ''from killFabriks import add_kill_fabriks; add_kill_fabriks('' @ [dquote]
                 @ safeType @ [dquote] @ '', '' @ [dquote] @ safeId @ [dquote] @ '', '' @ [dquote]
                 @ safeName @ [dquote] @ '')''
           in ''python -c '' @ [dquote] @ snippet @ [dquote])"

definition killFabriks :: "form \<Rightarrow> selection list \<Rightarrow> string" where
  "killFabriks form selections =
     (let commands = push_if (input_checked form ''run-cleanup'') [DEFAULT_COMMANDS_killFabriks];
          commands = commands @ filter (\<lambda>command. command \<noteq> [])
            (map (\<lambda>entry. buildKillAddCommand (k_type entry) (k_id entry) (k_name entry)) selections)
      in if length commands = 0 then DEFAULT_COMMANDS_killFabriks
         else join [CHR 0x0A] commands)"

subsection \<open>The cleanup lines in the words of the specification\<close>

text \<open>Backslashes and double quotes get one backslash in front; nothing else changes.\<close>

definition spec_kill_escape_char :: "char \<Rightarrow> string" where
  "spec_kill_escape_char c = (if c = backslash \<or> c = dquote then [backslash, c] else [c])"

definition spec_kill_escape :: "string \<Rightarrow> string" where
  "spec_kill_escape v = concat (map spec_kill_escape_char v)"

definition spec_kill_line :: "selection \<Rightarrow> string" where
  "spec_kill_line entry =
     ''python -c '' @ [dquote] @ ''from killFabriks import add_kill_fabriks; add_kill_fabriks(''
     @ [dquote] @ spec_kill_escape (k_type entry) @ [dquote] @ '', ''
     @ [dquote] @ spec_kill_escape (k_id entry) @ [dquote] @ '', ''
     @ [dquote] @ spec_kill_escape (k_name entry) @ [dquote] @ '')'' @ [dquote]"

section \<open>Parsed JSON\<close>

text \<open>
  A parsed JSON value, with \<open>JUndefined\<close> for the value of a missing property (it never
  occurs inside a payload). An object lists each of its keys once.
\<close>

datatype json =
    JUndefined | JNull | JBool bool | JNum int | JStr string
  | JArr "json list" | JObj "(string \<times> json) list"

text \<open>\<open>data.key\<close> for one of the property names read below.\<close>

definition get_prop :: "json \<Rightarrow> string \<Rightarrow> json" where
  "get_prop data key =
     (case data of
        JObj members \<Rightarrow> (case map_of members key of Some v \<Rightarrow> v | None \<Rightarrow> JUndefined)
      | _ \<Rightarrow> JUndefined)"

text \<open>\<open>a ?? b\<close>\<close>

definition coalesce :: "json \<Rightarrow> json \<Rightarrow> json" where
  "coalesce a b = (if a = JUndefined \<or> a = JNull then b else a)"

text \<open>Truthiness of a value.\<close>

fun truthy :: "json \<Rightarrow> bool" where
  "truthy JUndefined = False"
| "truthy JNull = False"
| "truthy (JBool b) = b"
| "truthy (JNum n) = (n \<noteq> 0)"
| "truthy (JStr s) = (s \<noteq> [])"
| "truthy (JArr xs) = True"
| "truthy (JObj members) = True"

text \<open>\<open>typeof data === "object"\<close> for a value that is not null: objects and arrays.\<close>

fun is_object :: "json \<Rightarrow> bool" where
  "is_object (JArr xs) = True"
| "is_object (JObj members) = True"
| "is_object _ = False"

text \<open>\<open>String(v)\<close>: an array joins its elements with commas, null ones being empty.\<close>

fun String_json :: "json \<Rightarrow> string" where
  "String_json JUndefined = ''undefined''"
| "String_json JNull = ''null''"
| "String_json (JBool b) = (if b then ''true'' else ''false'')"
| "String_json (JNum n) = String_number n"
| "String_json (JStr s) = s"
| "String_json (JArr xs) =
     join '','' (map (\<lambda>x. if x = JNull \<or> x = JUndefined then [] else String_json x) xs)"
| "String_json (JObj members) = ''[object Object]''"

section \<open>Catalog loader\<close>

record source =
  label :: string
  path :: string

text \<open>The labels end in Russian words, given here by their UTF-8 bytes.\<close>

definition label_dash :: string where
  "label_dash = [CHR 0xE2, CHR 0x80, CHR 0x94]"

definition label_catalogs :: string where
  "label_catalogs = [CHR 0xD0, CHR 0xBA, CHR 0xD0, CHR 0xB0, CHR 0xD1, CHR 0x82, CHR 0xD0, CHR 0xB0,
     CHR 0xD0, CHR 0xBB, CHR 0xD0, CHR 0xBE, CHR 0xD0, CHR 0xB3, CHR 0xD0, CHR 0xB8]"

definition label_lister :: string where
  "label_lister = [CHR 0xD0, CHR 0xBB, CHR 0xD0, CHR 0xB8, CHR 0xD1, CHR 0x81, CHR 0xD1, CHR 0x82,
     CHR 0xD0, CHR 0xB5, CHR 0xD1, CHR 0x80]"

definition FACTORY_SOURCES :: "(string \<times> source) list" where
  "FACTORY_SOURCES =
     [(''JV_F_P'', \<lparr>label = ''JV_F_P '' @ label_dash @ '' '' @ label_catalogs,
                    path = ''../Fabriks/JV_F_P/factories.json''\<rparr>),
      (''XL_F_P'', \<lparr>label = ''XL_F_P '' @ label_dash @ '' '' @ label_catalogs,
                    path = ''../Fabriks/XL_F_P/factories.json''\<rparr>),
      (''JV_F_L'', \<lparr>label = ''JV_F_L '' @ label_dash @ '' '' @ label_lister,
                    path = ''../Fabriks/JV_F_L/collections.json''\<rparr>),
      (''XL_F_L'', \<lparr>label = ''XL_F_L '' @ label_dash @ '' '' @ label_lister,
                    path = ''../Fabriks/XL_F_L/collections.json''\<rparr>)]"

definition TYPE_LABELS :: "string \<Rightarrow> string option" where
  "TYPE_LABELS = map_of (map (\<lambda>(type, src). (type, label src)) FACTORY_SOURCES)"

text \<open>\<open>TYPE_LABELS[type] || type\<close>\<close>

definition label_or_type :: "string \<Rightarrow> string" where
  "label_or_type type = (case TYPE_LABELS type of None \<Rightarrow> type | Some l \<Rightarrow> value_or l type)"

definition normalizeFactoryRecord :: "string \<Rightarrow> json \<Rightarrow> factory option" where
  "normalizeFactoryRecord type data =
     (if \<not> truthy data \<or> \<not> is_object data then None
      else let rawId = coalesce (coalesce (coalesce (get_prop data ''id'') (get_prop data ''ID''))
                         (get_prop data ''factory_id'')) (JStr [])
        in if \<not> truthy rawId then None
           else let countValue =
                      coalesce (coalesce (coalesce (coalesce (coalesce (get_prop data ''item_count'')
                        (get_prop data ''itemCount'')) (get_prop data ''count'')) (get_prop data ''total''))
                        (get_prop data ''itemTotal'')) JNull
             in Some \<lparr>f_type = type,
                      f_id = String_json rawId,
                      f_name = (if truthy (get_prop data ''name'') then String_json (get_prop data ''name'')
                                else []),
                      f_itemCount =
                        (case countValue of
                           JNum n \<Rightarrow> Some n
                         | JStr text \<Rightarrow> if trim text \<noteq> [] then Number_parseInt10 text else None
                         | _ \<Rightarrow> None)\<rparr>)"

text \<open>
  How one \<open>fetch\<close> ends: the promise rejects, or a response arrives with its status and
  its body, \<open>None\<close> when \<open>response.json()\<close> rejects.
\<close>

datatype fetch_response = FetchRejected | FetchResponse nat "json option"

datatype load_error = NetworkError | HttpError nat | InvalidJson | UnexpectedFormat

definition response_ok :: "nat \<Rightarrow> bool" where
  "response_ok status \<longleftrightarrow> 200 \<le> status \<and> status \<le> 299"

text \<open>The body of the \<open>try\<close> for one source: the records to collect, or what was thrown.\<close>

definition fetch_source_records :: "string \<Rightarrow> fetch_response \<Rightarrow> load_error + factory list" where
  "fetch_source_records type response =
     (case response of
        FetchRejected \<Rightarrow> Inl NetworkError
      | FetchResponse status body \<Rightarrow>
          if \<not> response_ok status then Inl (HttpError status)
          else (case body of
                  None \<Rightarrow> Inl InvalidJson
                | Some payload \<Rightarrow>
                    (case payload of
                       JArr entries \<Rightarrow> Inr (List.map_filter (normalizeFactoryRecord type) entries)
                     | _ \<Rightarrow> Inl UnexpectedFormat)))"

text \<open>
  The comparison function of \<open>collected.sort\<close>; \<open>COLLATOR.compare\<close> is the platform's Russian
  collation and is a parameter here.
\<close>

definition compare_factories :: "(string \<Rightarrow> string \<Rightarrow> int) \<Rightarrow> factory \<Rightarrow> factory \<Rightarrow> int" where
  "compare_factories collate a b =
     (if f_type a \<noteq> f_type b then collate (f_type a) (f_type b)
      else let nameCompare = collate (value_or (f_name a) []) (value_or (f_name b) [])
        in if nameCompare \<noteq> 0 then nameCompare else collate (f_id a) (f_id b))"

text \<open>\<open>Array.prototype.sort\<close> is stable; it is modelled as insertion from the right.\<close>

fun insert_by :: "('a \<Rightarrow> 'a \<Rightarrow> int) \<Rightarrow> 'a \<Rightarrow> 'a list \<Rightarrow> 'a list" where
  "insert_by cmp x [] = [x]"
| "insert_by cmp x (y # ys) = (if cmp x y \<le> 0 then x # y # ys else y # insert_by cmp x ys)"

definition sort_by :: "('a \<Rightarrow> 'a \<Rightarrow> int) \<Rightarrow> 'a list \<Rightarrow> 'a list" where
  "sort_by cmp xs = foldr (insert_by cmp) xs []"

text \<open>
  The module's variables, and with them the sweep suspended at its \<open>await\<close> (\<open>running\<close>),
  the paths handed to \<open>fetch\<close> so far (\<open>fetched\<close>), the number of promises made and how
  each sweep's promise was settled.
\<close>

datatype settlement = Fulfilled "factory list" | Rejected

record sweep =
  sw_promise :: nat
  sw_type :: string
  sw_rest :: "(string \<times> source) list"
  sw_collected :: "factory list"

record loader =
  cachedFactories :: "factory list"
  factoriesLoaded :: bool
  factoriesPromise :: "nat option"
  factoryLoadErrors :: "string list"
  running :: "sweep option"
  fetched :: "string list"
  promise_count :: nat
  settled :: "nat \<Rightarrow> settlement option"

definition initial_loader :: loader where
  "initial_loader =
     \<lparr>cachedFactories = [], factoriesLoaded = False, factoriesPromise = None,
      factoryLoadErrors = [], running = None, fetched = [], promise_count = 0,
      settled = (\<lambda>p. None)\<rparr>"

text \<open>
  The head of the \<open>for\<close> loop: the next source is fetched and the sweep waits, or the
  sources are exhausted and the sweep sorts, stores and returns the catalog.
\<close>

definition sweep_loop ::
  "(string \<Rightarrow> string \<Rightarrow> int) \<Rightarrow> nat \<Rightarrow> (string \<times> source) list \<Rightarrow> factory list \<Rightarrow> loader \<Rightarrow> loader" where
  "sweep_loop collate p rest collected st =
     (case rest of
        (type, src) # rest' \<Rightarrow>
          st\<lparr>fetched := fetched st @ [path src],
             running := Some \<lparr>sw_promise = p, sw_type = type, sw_rest = rest',
                              sw_collected = collected\<rparr>\<rparr>
      | [] \<Rightarrow>
          (let sorted = sort_by (compare_factories collate) collected
           in st\<lparr>cachedFactories := sorted, factoriesLoaded := True, running := None,
                 settled := (settled st)(p \<mapsto> Fulfilled sorted)\<rparr>))"

text \<open>What a call of \<open>loadAllFactories\<close> hands back: the catalog, or a pending promise.\<close>

datatype load_result = Catalog "factory list" | Pending nat

definition loadAllFactories ::
  "(string \<Rightarrow> string \<Rightarrow> int) \<Rightarrow> loader \<Rightarrow> load_result \<times> loader" where
  "loadAllFactories collate st =
     (if factoriesLoaded st then (Catalog (cachedFactories st), st)
      else case factoriesPromise st of
        Some p \<Rightarrow> (Pending p, st)
      | None \<Rightarrow>
          (let p = promise_count st;
               st = st\<lparr>factoryLoadErrors := [], promise_count := p + 1\<rparr>;
               st = sweep_loop collate p FACTORY_SOURCES [] st;
               st = st\<lparr>factoriesPromise := Some p\<rparr>
           in (Pending p, st)))"

text \<open>The sweep resumes when the fetch it waits for has ended.\<close>

definition fetch_settled :: "(string \<Rightarrow> string \<Rightarrow> int) \<Rightarrow> fetch_response \<Rightarrow> loader \<Rightarrow> loader" where
  "fetch_settled collate response st =
     (case running st of
        None \<Rightarrow> st
      | Some sw \<Rightarrow>
          (case fetch_source_records (sw_type sw) response of
             Inr records \<Rightarrow>
               sweep_loop collate (sw_promise sw) (sw_rest sw) (sw_collected sw @ records) st
           | Inl err \<Rightarrow>
               sweep_loop collate (sw_promise sw) (sw_rest sw) (sw_collected sw)
                 (st\<lparr>factoryLoadErrors := factoryLoadErrors st @ [label_or_type (sw_type sw)]\<rparr>)))"

text \<open>
  The handler given to \<open>.catch\<close>: something outside the \<open>try\<close> has thrown, the marker is
  cleared and the promise rejects.
\<close>

definition sweep_failed :: "loader \<Rightarrow> loader" where
  "sweep_failed st =
     (case running st of
        None \<Rightarrow> st
      | Some sw \<Rightarrow>
          st\<lparr>factoriesPromise := None, running := None,
             settled := (settled st)(sw_promise sw \<mapsto> Rejected)\<rparr>)"

datatype event = Call | FetchSettled fetch_response | SweepFailed

fun step :: "(string \<Rightarrow> string \<Rightarrow> int) \<Rightarrow> loader \<Rightarrow> event \<Rightarrow> loader" where
  "step collate st Call = snd (loadAllFactories collate st)"
| "step collate st (FetchSettled response) = fetch_settled collate response st"
| "step collate st SweepFailed = sweep_failed st"

definition run :: "(string \<Rightarrow> string \<Rightarrow> int) \<Rightarrow> loader \<Rightarrow> event list \<Rightarrow> loader" where
  "run collate st events = foldl (step collate) st events"

section \<open>The ignore-list page\<close>

definition IGNORE_SOURCES :: "(string \<times> string) list" where
  "IGNORE_SOURCES =
     [(''JV_F_P'', ''../Ignore/JV_P.json''), (''XL_F_P'', ''../Ignore/XL_P.json''),
      (''JV_F_L'', ''../Ignore/JV_L.json''), (''XL_F_L'', ''../Ignore/XL_L.json'')]"

text \<open>The source types: the keys of \<open>FACTORY_SOURCES\<close> and of \<open>IGNORE_SOURCES\<close>.\<close>

definition is_source_type :: "string \<Rightarrow> bool" where
  "is_source_type type \<longleftrightarrow> type \<in> set (map fst IGNORE_SOURCES)"

record ignore_selection =
  s_type :: string
  s_id :: string
  s_name :: string
  s_itemCount :: "int option"
  alreadyIgnored :: bool

record ignore_state =
  factories :: "factory list"
  selections :: "ignore_selection list"
  ignoreSet :: "string set"
  loadErrors :: "string list"
  isPickerOpen :: bool
  isApplying :: bool

text \<open>\<^verbatim>\<open>`${type}::${id}`\<close>\<close>

definition keyFor :: "string \<Rightarrow> string \<Rightarrow> string" where
  "keyFor type ident = type @ ''::'' @ ident"

text \<open>\<open>fetchJson(path)\<close> against a network that answers each path.\<close>

definition fetchJson :: "(string \<Rightarrow> fetch_response) \<Rightarrow> string \<Rightarrow> load_error + json" where
  "fetchJson net p =
     (case net p of
        FetchRejected \<Rightarrow> Inl NetworkError
      | FetchResponse status body \<Rightarrow>
          if \<not> response_ok status then Inl (HttpError status)
          else (case body of None \<Rightarrow> Inl InvalidJson | Some payload \<Rightarrow> Inr payload))"

text \<open>The key that one element of an ignore list adds, if any.\<close>

definition ignore_key :: "string \<Rightarrow> json \<Rightarrow> string option" where
  "ignore_key type item =
     (if truthy item \<and> is_object item
      then let ident = coalesce (coalesce (get_prop item ''id'') (get_prop item ''ID'')) JNull
           in if truthy ident then Some (keyFor type (String_json ident)) else None
      else None)"

definition add_ignore_keys :: "string \<Rightarrow> json list \<Rightarrow> string set \<Rightarrow> string set" where
  "add_ignore_keys type elems next =
     foldl (\<lambda>acc item. case ignore_key type item of None \<Rightarrow> acc | Some k \<Rightarrow> insert k acc)
       next elems"

fun ignore_loop ::
  "(string \<Rightarrow> fetch_response) \<Rightarrow> (string \<times> string) list \<Rightarrow> string set \<Rightarrow> string set" where
  "ignore_loop net [] next = next"
| "ignore_loop net ((type, p) # rest) next =
     (case fetchJson net p of
        Inl err \<Rightarrow> ignore_loop net rest next
      | Inr payload \<Rightarrow>
          (case payload of
             JArr elems \<Rightarrow> ignore_loop net rest (add_ignore_keys type elems next)
           | _ \<Rightarrow> ignore_loop net rest next))"

definition loadIgnoreLists :: "(string \<Rightarrow> fetch_response) \<Rightarrow> ignore_state \<Rightarrow> ignore_state" where
  "loadIgnoreLists net st = st\<lparr>ignoreSet := ignore_loop net IGNORE_SOURCES {}\<rparr>"

definition isSelected :: "ignore_state \<Rightarrow> string \<Rightarrow> string \<Rightarrow> bool" where
  "isSelected st type ident =
     list_ex (\<lambda>entry. s_type entry = type \<and> s_id entry = ident) (selections st)"

text \<open>
  What \<open>renderSelections\<close> does to the state: every entry's \<open>alreadyIgnored\<close> is set from
  the ignore set. The rest of the rendering writes to the document only.
\<close>

definition renderSelections :: "ignore_state \<Rightarrow> ignore_state" where
  "renderSelections st =
     st\<lparr>selections :=
          map (\<lambda>entry. entry\<lparr>alreadyIgnored := keyFor (s_type entry) (s_id entry) \<in> ignoreSet st\<rparr>)
            (selections st)\<rparr>"

text \<open>
  The request and the reply of \<open>/api/add-ignore\<close>. A reply carries its status, its text
  and its parsed body (\<open>None\<close> when it is not JSON); of the body, \<open>results\<close> and
  \<open>ignore_keys\<close> are \<open>None\<close> when the property is not an array.
\<close>

record apply_entry =
  r_type :: string
  r_id :: string
  r_name :: string
  r_status :: string

record apply_data =
  results :: "apply_entry list option"
  ignore_keys :: "string list option"

record apply_request =
  overwrite :: bool
  request_selections :: "(string \<times> string \<times> string) list"

datatype apply_reply = ApplyRejected | ApplyReply nat string "apply_data option"

record page =
  overwrite_checked :: bool
  post_add_ignore :: "apply_request \<Rightarrow> apply_reply"
  network :: "string \<Rightarrow> fetch_response"

text \<open>The body of the request: the overwrite flag and type, id and name of each entry.\<close>

definition apply_payload :: "page \<Rightarrow> ignore_state \<Rightarrow> apply_request" where
  "apply_payload env st =
     \<lparr>overwrite = overwrite_checked env,
      request_selections = map (\<lambda>entry. (s_type entry, s_id entry, s_name entry)) (selections st)\<rparr>"

text \<open>The statements of the \<open>try\<close> up to \<open>response.json()\<close>: the data, or what was thrown.\<close>

definition apply_fetch :: "page \<Rightarrow> ignore_state \<Rightarrow> load_error + apply_data" where
  "apply_fetch env st =
     (let payload = apply_payload env st
      in case post_add_ignore env payload of
           ApplyRejected \<Rightarrow> Inl NetworkError
         | ApplyReply status text body \<Rightarrow>
             if \<not> response_ok status then Inl (HttpError status)
             else (case body of None \<Rightarrow> Inl InvalidJson | Some data \<Rightarrow> Inr data))"

text \<open>The rest of the \<open>try\<close>, after the data has arrived.\<close>

definition apply_succeeded :: "page \<Rightarrow> apply_data \<Rightarrow> ignore_state \<Rightarrow> ignore_state" where
  "apply_succeeded env data st =
     (let rs = (case results data of Some entries \<Rightarrow> entries | None \<Rightarrow> []);
          st = (case ignore_keys data of
                  Some keys \<Rightarrow>
                    if length keys \<noteq> 0 then st\<lparr>ignoreSet := set keys\<rparr>
                    else loadIgnoreLists (network env) st
                | None \<Rightarrow> loadIgnoreLists (network env) st);
          failedKeys = set (map (\<lambda>entry. keyFor (r_type entry) (r_id entry))
                         (filter (\<lambda>entry. r_status entry = ''error'') rs))
      in st\<lparr>selections :=
              filter (\<lambda>entry. keyFor (s_type entry) (s_id entry) \<in> failedKeys) (selections st)\<rparr>)"

definition applySelections :: "page \<Rightarrow> ignore_state \<Rightarrow> ignore_state" where
  "applySelections env st =
     (if selections st = [] \<or> isApplying st then st
      else let st = st\<lparr>isApplying := True\<rparr>;
               st = (case apply_fetch env st of
                       Inr data \<Rightarrow> apply_succeeded env data st
                     | Inl err \<Rightarrow> st)
           in renderSelections (st\<lparr>isApplying := False\<rparr>))"

text \<open>
  What the page shows of the ignore set: the mark on each selected entry and the mark on
  each catalog record in the overview and the picker.
\<close>

definition annotations :: "ignore_state \<Rightarrow> bool list \<times> bool list" where
  "annotations st =
     (map alreadyIgnored (selections st),
      map (\<lambda>f. keyFor (f_type f) (f_id f) \<in> ignoreSet st) (factories st))"

subsection \<open>Command assembly in the words of the specification\<close>

text \<open>
  The text of a token that is kept: numbers in decimal, strings as they are; null,
  undefined and the empty string are dropped.
\<close>

fun token_text :: "jsval \<Rightarrow> string option" where
  "token_text Undefined = None"
| "token_text Null = None"
| "token_text (Str s) = (if s = [] then None else Some s)"
| "token_text (Num n) = Some (String_number n)"

text \<open>The quoting rules for a token that is kept.\<close>

definition spec_quote :: "string \<Rightarrow> string" where
  "spec_quote s =
     (if (\<exists>rest. s = CHR ''-'' # rest) \<or> (\<forall>c \<in> set s. spec_safe_char c) then s
      else [dquote] @ concat (map spec_escape_char s) @ [dquote])"

subsection \<open>Selections in the words of the specification\<close>

text \<open>The identity of a selected entry, and the entry that a catalog record becomes.\<close>

definition identity :: "selection \<Rightarrow> string \<times> string" where
  "identity entry = (k_type entry, k_id entry)"

definition entry_of :: "factory \<Rightarrow> selection" where
  "entry_of f = \<lparr>k_type = f_type f, k_id = f_id f, k_name = f_name f, k_count = f_itemCount f\<rparr>"

definition occurs :: "string \<Rightarrow> string \<Rightarrow> selection list \<Rightarrow> bool" where
  "occurs type ident sels \<longleftrightarrow> (type, ident) \<in> set (map identity sels)"

text \<open>What holds of every selection the page can build.\<close>

definition selection_inv :: "selection list \<Rightarrow> bool" where
  "selection_inv sels \<longleftrightarrow>
     distinct (map identity sels) \<and> (\<forall>e \<in> set sels. k_id e \<noteq> [] \<and> k_type e \<noteq> [])"

subsection \<open>Forms for the limit field\<close>



subsection \<open>Sweeps in the words of the specification\<close>

text \<open>
  A source fails when its fetch is rejected, its response is not 2xx, or its body is not
  a JSON array; otherwise it contributes the records normalized from its array.
\<close>

definition source_failed :: "fetch_response \<Rightarrow> bool" where
  "source_failed response \<longleftrightarrow>
     (case response of
        FetchRejected \<Rightarrow> True
      | FetchResponse status body \<Rightarrow>
          status < 200 \<or> 299 < status
          \<or> (case body of Some (JArr entries) \<Rightarrow> False | _ \<Rightarrow> True))"

definition source_entries :: "string \<Rightarrow> fetch_response \<Rightarrow> factory list" where
  "source_entries type response =
     (case response of
        FetchResponse status (Some (JArr entries)) \<Rightarrow>
          if 200 \<le> status \<and> status \<le> 299
          then List.map_filter (normalizeFactoryRecord type) entries else []
      | _ \<Rightarrow> [])"

definition all_paths :: "string list" where
  "all_paths = map (\<lambda>(type, src). path src) FACTORY_SOURCES"

text \<open>
  What holds of the loader as long as no sweep has failed: a running sweep has fetched
  the sources before its remaining ones, a finished one has fetched every source once,
  and before the first call nothing has been fetched.
\<close>

definition loader_inv :: "loader \<Rightarrow> bool" where
  "loader_inv st \<longleftrightarrow>
     (case running st of
        Some sw \<Rightarrow>
          \<not> factoriesLoaded st \<and> factoriesPromise st \<noteq> None
          \<and> fetched st @ map (\<lambda>(type, src). path src) (sw_rest sw) = all_paths
      | None \<Rightarrow>
          (factoriesLoaded st \<and> fetched st = all_paths)
          \<or> (\<not> factoriesLoaded st \<and> factoriesPromise st = None \<and> fetched st = []))"

text \<open>
  The records and the failed types of a sweep whose sources, of the given types in
  order, got the given responses.
\<close>

definition entries_of :: "string list \<Rightarrow> fetch_response list \<Rightarrow> factory list" where
  "entries_of types rs = concat (map (\<lambda>(t, r). source_entries t r) (zip types rs))"

definition failures_of :: "string list \<Rightarrow> fetch_response list \<Rightarrow> string list" where
  "failures_of types rs = map fst (filter (\<lambda>(t, r). source_failed r) (zip types rs))"

text \<open>
  Four responses for the four sources: an array of two elements, one of them without an
  id; a server error; an empty array; an object instead of an array.
\<close>

definition example_responses :: "fetch_response list" where
  "example_responses =
     [FetchResponse 200 (Some (JArr [JObj [(''id'', JNum 7), (''name'', JStr ''Acme'')],
                                     JObj [(''name'', JStr ''no id'')]])),
      FetchResponse 500 None,
      FetchResponse 200 (Some (JArr [])),
      FetchResponse 200 (Some (JObj []))]"

text \<open>A collation under which all strings are equal, for running the loader.\<close>

definition no_collation :: "string \<Rightarrow> string \<Rightarrow> int" where
  "no_collation a b = 0"

subsection \<open>Applying in the words of the specification\<close>



text \<open>The mark of each entry set from an ignore set.\<close>

definition annotate :: "string set \<Rightarrow> ignore_selection list \<Rightarrow> ignore_selection list" where
  "annotate keys sels =
     map (\<lambda>entry. entry\<lparr>alreadyIgnored := keyFor (s_type entry) (s_id entry) \<in> keys\<rparr>) sels"

text \<open>
  A page whose apply request is answered 200 with one failed entry and an empty
  \<open>ignore_keys\<close> array while the ignore list of \<open>JV_F_P\<close> holds the id 7, and a
  state with two selected entries.
\<close>

definition example_results :: "apply_entry list" where
  "example_results =
     [\<lparr>r_type = ''XL_F_L'', r_id = ''9'', r_name = ''Zeta'', r_status = ''error''\<rparr>,
      \<lparr>r_type = ''JV_F_P'', r_id = ''7'', r_name = ''Acme'', r_status = ''exists''\<rparr>]"

definition example_page :: page where
  "example_page =
     \<lparr>overwrite_checked = False,
      post_add_ignore =
        (\<lambda>request. ApplyReply 200 []
           (Some \<lparr>results = Some example_results, ignore_keys = Some []\<rparr>)),
      network =
        (\<lambda>p. if p = ''../Ignore/JV_P.json''
              then FetchResponse 200 (Some (JArr [JObj [(''id'', JNum 7)]]))
              else FetchResponse 404 None)\<rparr>"

definition example_state :: ignore_state where
  "example_state =
     \<lparr>factories = [],
      selections = [\<lparr>s_type = ''JV_F_P'', s_id = ''7'', s_name = ''Acme'', s_itemCount = None,
                     alreadyIgnored = False\<rparr>,
                    \<lparr>s_type = ''XL_F_L'', s_id = ''9'', s_name = ''Zeta'', s_itemCount = Some 3,
                     alreadyIgnored = False\<rparr>],
      ignoreSet = {}, loadErrors = [], isPickerOpen = False, isApplying = False\<rparr>"

text \<open>The same page answering with the keys that the server holds.\<close>

definition example_page_keys :: page where
  "example_page_keys =
     example_page\<lparr>post_add_ignore :=
        (\<lambda>request. ApplyReply 200 []
           (Some \<lparr>results = Some example_results, ignore_keys = Some [''JV_F_P::7'']\<rparr>))\<rparr>"

section \<open>Shell quoting: the rules\<close>

lemma of_char_image_memD: "(of_char c :: nat) \<in> of_char ` set S \<Longrightarrow> c \<in> set S"
proof -
  assume "(of_char c :: nat) \<in> of_char ` set S"
  then obtain d where d: "d \<in> set S" "(of_char c :: nat) = of_char d" by blast
  from d(2) have "c = d" by (simp only: of_char_eq_iff)
  with d(1) show ?thesis by simp
qed

lemma in_range_codes:
  assumes codes: "map of_char S = [of_char lo ..< Suc (of_char hi)]"
  shows "in_range lo hi c \<longleftrightarrow> c \<in> set S"
proof -
  have "in_range lo hi c \<longleftrightarrow> (of_char c :: nat) \<in> set [of_char lo ..< Suc (of_char hi)]"
    by (simp only: in_range_def set_upt atLeastLessThan_iff less_Suc_eq_le)
  also have "\<dots> \<longleftrightarrow> (of_char c :: nat) \<in> of_char ` set S"
    by (simp only: codes [symmetric] set_map)
  also have "\<dots> \<longleftrightarrow> c \<in> set S"
    by (auto dest: of_char_image_memD)
  finally show ?thesis .
qed

lemma in_range_digit: "in_range CHR ''0'' CHR ''9'' c \<longleftrightarrow> c \<in> set ascii_digits"
  by (rule in_range_codes) (simp add: ascii_digits_def upt_rec_numeral)

lemma in_range_upper: "in_range CHR ''A'' CHR ''Z'' c \<longleftrightarrow> c \<in> set ''ABCDEFGHIJKLMNOPQRSTUVWXYZ''"
  by (rule in_range_codes) (simp add: upt_rec_numeral)

lemma in_range_lower: "in_range CHR ''a'' CHR ''z'' c \<longleftrightarrow> c \<in> set ''abcdefghijklmnopqrstuvwxyz''"
  by (rule in_range_codes) (simp add: upt_rec_numeral)

lemma SAFE_VALUE_class_spec: "SAFE_VALUE_class c \<longleftrightarrow> spec_safe_char c"
  unfolding SAFE_VALUE_class_def spec_safe_char_def in_range_digit in_range_upper in_range_lower
    ascii_letters_def
  by auto

lemma SAFE_VALUE_test_spec:
  "SAFE_VALUE_test part \<longleftrightarrow> part \<noteq> [] \<and> (\<forall>c \<in> set part. spec_safe_char c)"
  by (simp add: SAFE_VALUE_test_def list_all_iff SAFE_VALUE_class_spec)

lemma replace_escape_spec: "replace_escape s = concat (map spec_escape_char s)"
  by (induction s) (simp_all add: escape_class_def spec_escape_char_def)

lemma startsWith_dash: "startsWith s ''-'' \<longleftrightarrow> (\<exists>rest. s = CHR ''-'' # rest)"
  by (cases s) (auto simp: startsWith_def)

text \<open>
  C1. Shell quoting of a raw token: undefined, null and the empty string give the empty
  string; a token whose string form starts with a hyphen is returned as it is, whatever
  else it contains; a token made only of ASCII letters, digits and the characters
  \<open>_ . @ % + = : , / \ -\<close> is returned as it is; every other token is put between double
  quotes, each double quote, backslash, dollar sign and backtick in it preceded by one
  backslash and every other character unchanged.
\<close>

theorem shellQuote_rules:
  "(is_nullish v \<or> String_js v = [] \<longrightarrow> shellQuote v = [])
   \<and> (\<not> is_nullish v \<and> (\<exists>rest. String_js v = CHR ''-'' # rest) \<longrightarrow> shellQuote v = String_js v)
   \<and> (\<not> is_nullish v \<and> (\<forall>c \<in> set (String_js v). spec_safe_char c) \<longrightarrow> shellQuote v = String_js v)
   \<and> (\<not> is_nullish v \<and> String_js v \<noteq> [] \<and> \<not> (\<exists>rest. String_js v = CHR ''-'' # rest)
        \<and> \<not> (\<forall>c \<in> set (String_js v). spec_safe_char c)
      \<longrightarrow> shellQuote v = [dquote] @ concat (map spec_escape_char (String_js v)) @ [dquote])"
  by (simp add: shellQuote_def is_nullish_def Let_def SAFE_VALUE_test_spec replace_escape_spec
      startsWith_dash)

theorem shellQuote_rules_witness:
  "shellQuote Undefined = [] \<and> shellQuote Null = [] \<and> shellQuote (Str []) = []
   \<and> shellQuote (Str ''-rf $HOME'') = ''-rf $HOME''
   \<and> shellQuote (Str ''C:\<newline>'') = [dquote] @ ''C:\<newline>'' @ [dquote]
   \<and> shellQuote (Num 42) = ''42''
   \<and> shellQuote (Str ''out/file_1.csv'') = ''out/file_1.csv''
   \<and> shellQuote (Str (''say '' @ [dquote] @ ''hi'' @ [dquote] @ '' $x''))
       = [dquote] @ ''say '' @ [backslash, dquote] @ ''hi'' @ [backslash, dquote] @ '' '' @ [backslash] @ ''$x'' @ [dquote]"
proof -
  have safe1: "\<forall>c \<in> set ''out/file_1.csv''. spec_safe_char c"
    by (simp add: spec_safe_char_def ascii_letters_def ascii_digits_def)
  have safe2: "\<forall>c \<in> set (String_js (Num 42)). spec_safe_char c"
    by (simp add: spec_safe_char_def ascii_letters_def ascii_digits_def String_number_def
        decimal_nat.simps digit_char_def)
  have unsafe: "\<not> (\<forall>c \<in> set (''say '' @ [dquote] @ ''hi'' @ [dquote] @ '' $x''). spec_safe_char c)"
    by (simp add: spec_safe_char_def ascii_letters_def ascii_digits_def dquote_def backslash_def)
  have unsafe2: "\<not> (\<forall>c \<in> set ''C:\<newline>''. spec_safe_char c)"
    by (simp add: spec_safe_char_def ascii_letters_def ascii_digits_def dquote_def backslash_def)
  show ?thesis
    using shellQuote_rules [of Undefined] shellQuote_rules [of Null] shellQuote_rules [of "Str []"]
      shellQuote_rules [of "Str ''-rf $HOME''"] shellQuote_rules [of "Num 42"]
      shellQuote_rules [of "Str ''out/file_1.csv''"] shellQuote_rules [of "Str ''C:\<newline>''"]
      shellQuote_rules [of "Str (''say '' @ [dquote] @ ''hi'' @ [dquote] @ '' $x'')"]
      safe1 safe2 unsafe unsafe2
    by (simp add: is_nullish_def spec_escape_char_def dquote_def backslash_def dollar_def
        backtick_def String_number_def decimal_nat.simps digit_char_def)
qed

section \<open>Command assembly\<close>

lemma decimal_nat_nonempty: "decimal_nat n \<noteq> []"
  by (subst decimal_nat.simps) simp

lemma String_number_nonempty: "String_number n \<noteq> []" "[] \<noteq> String_number n"
  using decimal_nat_nonempty [of "nat n"] decimal_nat_nonempty [of "nat (- n)"]
  by (auto simp: String_number_def)

lemma shellQuote_Str: "s \<noteq> [] \<Longrightarrow> shellQuote (Str s) = spec_quote s"
  by (auto simp: shellQuote_def spec_quote_def Let_def SAFE_VALUE_test_spec replace_escape_spec
      startsWith_dash)

lemma quoted_tokens:
  "map shellQuote (filter kept (map coerce_number parts))
     = map spec_quote (List.map_filter token_text parts)"
proof (induction parts)
  case Nil
  show ?case by (simp add: List.map_filter_simps)
next
  case (Cons part parts)
  then show ?case
    by (cases part)
       (simp_all add: List.map_filter_simps coerce_number_def kept_def shellQuote_Str
          String_number_nonempty)
qed

lemma map_filter_token_text_nonempty: "t \<in> set (List.map_filter token_text parts) \<Longrightarrow> t \<noteq> []"
proof (induction parts)
  case Nil
  then show ?case by (simp add: List.map_filter_simps)
next
  case (Cons part parts)
  then show ?case
    by (cases part) (auto simp: List.map_filter_simps String_number_nonempty split: if_splits)
qed

lemma safe_not_whitespace: "spec_safe_char c \<Longrightarrow> \<not> is_whitespace c"
  by (auto simp: spec_safe_char_def is_whitespace_def ascii_letters_def ascii_digits_def
      backslash_def)

lemma spec_quote_nonempty: "s \<noteq> [] \<Longrightarrow> spec_quote s \<noteq> []"
  by (simp add: spec_quote_def)

lemma spec_quote_hd: "s \<noteq> [] \<Longrightarrow> \<not> is_whitespace (hd (spec_quote s))"
  by (cases s) (auto simp: spec_quote_def is_whitespace_def dquote_def dest: safe_not_whitespace)

lemma spec_quote_last:
  "s \<noteq> [] \<Longrightarrow> is_whitespace (last (spec_quote s))
     \<Longrightarrow> (\<exists>rest. s = CHR ''-'' # rest) \<and> spec_quote s = s"
proof -
  assume s: "s \<noteq> []" and ws: "is_whitespace (last (spec_quote s))"
  show ?thesis
  proof (cases "\<exists>rest. s = CHR ''-'' # rest")
    case True
    then show ?thesis by (simp add: spec_quote_def)
  next
    case False
    show ?thesis
    proof (cases "\<forall>c \<in> set s. spec_safe_char c")
      case True
      with s have "spec_safe_char (last s)" by simp
      moreover from True have "spec_quote s = s" by (simp add: spec_quote_def)
      ultimately show ?thesis using ws safe_not_whitespace by auto
    next
      case unsafe: False
      have "spec_quote s = [dquote] @ concat (map spec_escape_char s) @ [dquote]"
        using False unsafe unfolding spec_quote_def by (simp only: if_False simp_thms)
      then have "last (spec_quote s) = dquote" by simp
      with ws show ?thesis by (simp add: is_whitespace_def dquote_def)
    qed
  qed
qed

lemma join_nonempty: "xs \<noteq> [] \<Longrightarrow> \<forall>x \<in> set xs. x \<noteq> [] \<Longrightarrow> join sep xs \<noteq> []"
  by (induction sep xs rule: join.induct) auto

lemma hd_join: "xs \<noteq> [] \<Longrightarrow> \<forall>x \<in> set xs. x \<noteq> [] \<Longrightarrow> hd (join sep xs) = hd (hd xs)"
  by (induction sep xs rule: join.induct) auto

lemma last_join: "xs \<noteq> [] \<Longrightarrow> \<forall>x \<in> set xs. x \<noteq> [] \<Longrightarrow> last (join sep xs) = last (last xs)"
  by (induction sep xs rule: join.induct) (auto simp: join_nonempty)

lemma join_empty_iff: "\<forall>x \<in> set xs. x \<noteq> [] \<Longrightarrow> join sep xs = [] \<longleftrightarrow> xs = []"
  by (induction sep xs rule: join.induct) auto

lemma set_join: "set (join sep xs) \<subseteq> set sep \<union> (\<Union>x \<in> set xs. set x)"
  by (induction sep xs rule: join.induct) auto

lemma spec_escape_char_breaks: "c' \<in> set (spec_escape_char c) \<Longrightarrow> is_line_break c' \<Longrightarrow> c' = c"
  by (auto simp: spec_escape_char_def is_line_break_def backslash_def split: if_splits)

lemma spec_quote_breaks:
  "c \<in> set (spec_quote s) \<Longrightarrow> is_line_break c \<Longrightarrow> c \<in> set s"
  by (auto simp: spec_quote_def is_line_break_def dquote_def split: if_splits
      dest: spec_escape_char_breaks [unfolded is_line_break_def])

text \<open>
  C2, as amended. Command assembly turns numbers into their decimal form, drops null,
  undefined and empty-string tokens, quotes every remaining token by the shell-quoting
  rules and joins the results with single spaces. The text never starts with white
  space; it ends with white space only when the last kept token starts with a hyphen and
  itself ends with white space; it holds a line break only when a kept token holds one.
  The tokens \<open>python\<close>, \<open>Login.py\<close>, \<open>--account\<close>, \<open>bob\<close>, \<open>--verbose\<close> give
  \<open>python Login.py --account bob --verbose\<close>.
\<close>

theorem joinCommand_assembly:
  "joinCommand parts = join '' '' (map spec_quote (List.map_filter token_text parts))
   \<and> (joinCommand parts \<noteq> [] \<longrightarrow> \<not> is_whitespace (hd (joinCommand parts)))
   \<and> (joinCommand parts \<noteq> [] \<and> is_whitespace (last (joinCommand parts)) \<longrightarrow>
        (\<exists>rest. last (List.map_filter token_text parts) = CHR ''-'' # rest)
        \<and> is_whitespace (last (last (List.map_filter token_text parts))))
   \<and> ((\<exists>c \<in> set (joinCommand parts). is_line_break c) \<longrightarrow>
        (\<exists>t \<in> set (List.map_filter token_text parts). \<exists>c \<in> set t. is_line_break c))
   \<and> joinCommand [Str ''python'', Str ''Login.py'', Str ''--account'', Str ''bob'', Str ''--verbose'']
       = ''python Login.py --account bob --verbose''"
proof -
  define texts where "texts = List.map_filter token_text parts"
  have join_eq: "joinCommand parts = join '' '' (map spec_quote texts)"
    by (simp add: joinCommand_def quoted_tokens texts_def)
  have texts_nonempty: "\<forall>t \<in> set texts. t \<noteq> []"
    using map_filter_token_text_nonempty by (auto simp: texts_def)
  then have quoted_nonempty: "\<forall>q \<in> set (map spec_quote texts). q \<noteq> []"
    by (simp add: spec_quote_nonempty)
  have first: "\<not> is_whitespace (hd (joinCommand parts))" if "joinCommand parts \<noteq> []"
  proof -
    from that have ne: "texts \<noteq> []" by (auto simp: join_eq)
    then have "hd (joinCommand parts) = hd (spec_quote (hd texts))"
      using quoted_nonempty by (simp add: join_eq hd_join hd_map)
    moreover have "hd texts \<noteq> []" using ne texts_nonempty by simp
    ultimately show ?thesis by (simp add: spec_quote_hd)
  qed
  have final: "(\<exists>rest. last texts = CHR ''-'' # rest) \<and> is_whitespace (last (last texts))"
    if "joinCommand parts \<noteq> []" and ws: "is_whitespace (last (joinCommand parts))"
  proof -
    from that have ne: "texts \<noteq> []" by (auto simp: join_eq)
    then have "last (joinCommand parts) = last (spec_quote (last texts))"
      using quoted_nonempty by (simp add: join_eq last_join last_map)
    moreover have "last texts \<noteq> []" using ne texts_nonempty by simp
    ultimately show ?thesis using ws spec_quote_last [of "last texts"] by auto
  qed
  have breaks: "\<exists>t \<in> set texts. \<exists>c \<in> set t. is_line_break c"
    if "\<exists>c \<in> set (joinCommand parts). is_line_break c"
  proof -
    from that obtain c where c: "c \<in> set (joinCommand parts)" "is_line_break c" by blast
    from c(1) have "c \<in> set '' '' \<union> (\<Union>q \<in> set (map spec_quote texts). set q)"
      using set_join [of "'' ''" "map spec_quote texts"] by (auto simp: join_eq)
    with c(2) obtain t where "t \<in> set texts" "c \<in> set (spec_quote t)"
      by (auto simp: is_line_break_def)
    with c(2) show ?thesis using spec_quote_breaks by blast
  qed
  have example:
    "joinCommand [Str ''python'', Str ''Login.py'', Str ''--account'', Str ''bob'', Str ''--verbose'']
       = ''python Login.py --account bob --verbose''"
    by (simp add: joinCommand_def coerce_number_def kept_def shellQuote_Str spec_quote_def
        spec_safe_char_def ascii_letters_def ascii_digits_def)
  show ?thesis
    using join_eq first final breaks example unfolding texts_def by blast
qed

theorem joinCommand_assembly_witness:
  "joinCommand [Str ''ls'', Num 3, Null, Str [], Undefined, Str ''a b'']
     = ''ls 3 '' @ [dquote] @ ''a b'' @ [dquote]
   \<and> \<not> is_whitespace (hd (joinCommand [Str ''ls'', Num 3, Null, Str [], Undefined, Str ''a b'']))
   \<and> is_whitespace (last (joinCommand [Str ''ls'', Str ''-x '']))
   \<and> last (List.map_filter token_text [Str ''ls'', Str ''-x '']) = ''-x ''"
proof -
  have texts: "List.map_filter token_text [Str ''ls'', Num 3, Null, Str [], Undefined, Str ''a b'']
      = [''ls'', ''3'', ''a b'']"
    by (simp add: List.map_filter_simps String_number_def decimal_nat.simps digit_char_def)
  have quoted: "map spec_quote [''ls'', ''3'', ''a b''] = [''ls'', ''3'', [dquote] @ ''a b'' @ [dquote]]"
    by (simp add: spec_quote_def spec_safe_char_def ascii_letters_def ascii_digits_def
        spec_escape_char_def dquote_def backslash_def dollar_def backtick_def)
  have flag: "joinCommand [Str ''ls'', Str ''-x ''] = ''ls -x ''"
    by (simp add: joinCommand_def coerce_number_def kept_def shellQuote_Str spec_quote_def
        spec_safe_char_def ascii_letters_def ascii_digits_def)
  have ws: "is_whitespace (last ''ls -x '')" by (simp add: is_whitespace_def)
  show ?thesis
    using joinCommand_assembly [of "[Str ''ls'', Num 3, Null, Str [], Undefined, Str ''a b'']"]
      joinCommand_assembly [of "[Str ''ls'', Str ''-x '']"] texts quoted flag ws
    by (simp add: List.map_filter_simps)
qed

text \<open>
  C2 as stated fails: a token that starts with a hyphen is emitted as it is, so its
  trailing space ends the assembled text.
\<close>

theorem joinCommand_trailing_whitespace_counterexample:
  "joinCommand [Str ''python'', Str ''run.py'', Str ''-x ''] = ''python run.py -x ''
   \<and> is_whitespace (last (joinCommand [Str ''python'', Str ''run.py'', Str ''-x '']))"
proof -
  have "joinCommand [Str ''python'', Str ''run.py'', Str ''-x ''] = ''python run.py -x ''"
    by (simp add: joinCommand_def coerce_number_def kept_def shellQuote_Str spec_quote_def
        spec_safe_char_def ascii_letters_def ascii_digits_def)
  then show ?thesis by (simp add: is_whitespace_def)
qed

section \<open>Selection state: adding and removing\<close>

lemma isFactorySelected_occurs: "isFactorySelected sels t i \<longleftrightarrow> occurs t i sels"
  by (auto simp: isFactorySelected_def occurs_def identity_def list_ex_iff)

lemma occurs_append: "occurs t i (xs @ ys) \<longleftrightarrow> occurs t i xs \<or> occurs t i ys"
  by (auto simp: occurs_def)

lemma occurs_Cons: "occurs t i (x # xs) \<longleftrightarrow> identity x = (t, i) \<or> occurs t i xs"
  by (auto simp: occurs_def)

lemma occurs_Nil: "\<not> occurs t i []"
  by (simp add: occurs_def)

lemma value_or_empty: "value_or v [] = v"
  by (simp add: value_or_def)

lemma addFactorySelection_cases:
  "addFactorySelection (Some f) sels =
     (if f_id f = [] \<or> f_type f = [] \<or> occurs (f_type f) (f_id f) sels then (False, sels)
      else (True, sels @ [entry_of f]))"
  by (simp add: addFactorySelection_def isFactorySelected_occurs entry_of_def value_or_empty)

lemma identity_entry_of: "identity (entry_of f) = (f_type f, f_id f)"
  by (simp add: identity_def entry_of_def)

lemma entry_of_sel: "k_type (entry_of f) = f_type f" "k_id (entry_of f) = f_id f"
  by (simp_all add: entry_of_def)

text \<open>\<open>findIndex\<close> and \<open>splice\<close> take out the first match.\<close>

lemma findIndex_none: "\<forall>x \<in> set xs. \<not> P x \<Longrightarrow> findIndex P xs = - 1"
  by (induction xs) simp_all

lemma findIndex_nonneg: "findIndex P xs = - 1 \<or> 0 \<le> findIndex P xs"
  by (induction xs) (auto simp: Let_def)

lemma findIndex_first:
  "\<forall>x \<in> set pre. \<not> P x \<Longrightarrow> P e \<Longrightarrow> findIndex P (pre @ e # post) = int (length pre)"
proof (induction pre)
  case Nil
  then show ?case by simp
next
  case (Cons x pre)
  then show ?case by (simp add: Let_def)
qed

lemma first_match:
  "\<exists>x \<in> set xs. P x \<Longrightarrow> \<exists>pre e post. xs = pre @ e # post \<and> P e \<and> (\<forall>x \<in> set pre. \<not> P x)"
  using split_list_first_prop [of xs P] by blast

lemma splice1_first: "splice1 (int (length pre)) (pre @ e # post) = pre @ post"
  by (simp add: splice1_def)

lemma removeFactorySelection_absent:
  "\<not> occurs t i sels \<Longrightarrow> removeFactorySelection t i sels = (False, sels)"
proof -
  assume "\<not> occurs t i sels"
  then have "\<forall>x \<in> set sels. \<not> (k_type x = t \<and> k_id x = i)"
    by (auto simp: occurs_def identity_def)
  then show ?thesis by (simp add: removeFactorySelection_def findIndex_none)
qed

lemma removeFactorySelection_split:
  assumes "\<forall>x \<in> set pre. identity x \<noteq> (t, i)" and "identity e = (t, i)"
  shows "removeFactorySelection t i (pre @ e # post) = (True, pre @ post)"
proof -
  let ?P = "\<lambda>entry. k_type entry = t \<and> k_id entry = i"
  from assms have "\<forall>x \<in> set pre. \<not> ?P x" and "?P e" by (auto simp: identity_def)
  then have "findIndex ?P (pre @ e # post) = int (length pre)" by (rule findIndex_first)
  then show ?thesis by (simp add: removeFactorySelection_def splice1_first)
qed

lemma removeFactorySelection_present:
  assumes "occurs t i sels"
  shows "\<exists>pre e post. sels = pre @ e # post \<and> identity e = (t, i)
           \<and> (\<forall>x \<in> set pre. identity x \<noteq> (t, i))
           \<and> removeFactorySelection t i sels = (True, pre @ post)"
proof -
  from assms have "\<exists>x \<in> set sels. identity x = (t, i)" by (auto simp: occurs_def)
  then obtain pre e post where split: "sels = pre @ e # post" "identity e = (t, i)"
      "\<forall>x \<in> set pre. identity x \<noteq> (t, i)"
    using first_match [of sels "\<lambda>x. identity x = (t, i)"] by blast
  then show ?thesis using removeFactorySelection_split by blast
qed

lemma removeFactorySelection_distinct:
  assumes "occurs t i sels" and "distinct (map identity sels)"
  shows "snd (removeFactorySelection t i sels) = filter (\<lambda>entry. identity entry \<noteq> (t, i)) sels"
    and "\<not> occurs t i (snd (removeFactorySelection t i sels))"
proof -
  from removeFactorySelection_present [OF assms(1)]
  obtain pre e post where split: "sels = pre @ e # post" "identity e = (t, i)"
      "\<forall>x \<in> set pre. identity x \<noteq> (t, i)" "removeFactorySelection t i sels = (True, pre @ post)"
    by blast
  from assms(2) split(1,2) have post: "\<forall>x \<in> set post. identity x \<noteq> (t, i)"
    by (auto simp: image_iff)
  from split(3) have "filter (\<lambda>entry. identity entry \<noteq> (t, i)) pre = pre" by simp
  moreover from post have "filter (\<lambda>entry. identity entry \<noteq> (t, i)) post = post" by simp
  ultimately show "snd (removeFactorySelection t i sels)
      = filter (\<lambda>entry. identity entry \<noteq> (t, i)) sels"
    using split(1,2,4) by simp
  from split(3) post split(4) show "\<not> occurs t i (snd (removeFactorySelection t i sels))"
    by (auto simp: occurs_def)
qed


lemma selection_inv_add: "selection_inv sels \<Longrightarrow> selection_inv (snd (addFactorySelection arg sels))"
proof (cases arg)
  case None
  then show "selection_inv sels \<Longrightarrow> ?thesis" by (simp add: addFactorySelection_def)
next
  case (Some f)
  then show "selection_inv sels \<Longrightarrow> ?thesis"
    by (auto simp: addFactorySelection_cases selection_inv_def identity_entry_of occurs_def
        entry_of_sel)
qed

lemma selection_inv_remove:
  "selection_inv sels \<Longrightarrow> selection_inv (snd (removeFactorySelection t i sels))"
proof (cases "occurs t i sels")
  case False
  then show "selection_inv sels \<Longrightarrow> ?thesis" by (simp add: removeFactorySelection_absent)
next
  case True
  assume inv: "selection_inv sels"
  then have "distinct (map identity sels)" by (simp add: selection_inv_def)
  from removeFactorySelection_distinct(1) [OF True this] inv show ?thesis
    by (auto simp: selection_inv_def distinct_map_filter)
qed

lemma selection_inv_foldl:
  "selection_inv sels \<Longrightarrow> selection_inv (foldl (\<lambda>s op. apply_op op s) sels ops)"
proof (induction ops arbitrary: sels)
  case Nil
  then show ?case by simp
next
  case (Cons op ops)
  have "selection_inv (apply_op op sels)"
    using Cons.prems by (cases op) (simp_all add: selection_inv_add selection_inv_remove)
  then show ?case using Cons.IH by simp
qed

lemma selection_inv_reachable: "selection_inv (selections_after ops)"
  unfolding selections_after_def by (rule selection_inv_foldl) (simp add: selection_inv_def)

text \<open>
  C6, as amended. Adding an entry whose identity (type, id) already occurs in the
  selection returns "not added" and leaves the selection as it is; adding an entry with a
  fresh identity whose type and id are both non-empty appends it at the end and returns
  "added"; an entry with an empty type or id is rejected, "not added", the selection
  unchanged. Adding the same entry again right after leaves the selection exactly as the
  first call left it.
\<close>

theorem addFactorySelection_membership:
  "(occurs (f_type f) (f_id f) sels \<longrightarrow> addFactorySelection (Some f) sels = (False, sels))
   \<and> (\<not> occurs (f_type f) (f_id f) sels \<and> f_type f \<noteq> [] \<and> f_id f \<noteq> [] \<longrightarrow>
        addFactorySelection (Some f) sels = (True, sels @ [entry_of f]))
   \<and> (f_type f = [] \<or> f_id f = [] \<longrightarrow> addFactorySelection (Some f) sels = (False, sels))
   \<and> addFactorySelection arg (snd (addFactorySelection arg sels))
       = (False, snd (addFactorySelection arg sels))"
proof -
  have again: "addFactorySelection arg (snd (addFactorySelection arg sels))
      = (False, snd (addFactorySelection arg sels))"
  proof (cases arg)
    case None
    then show ?thesis by (simp add: addFactorySelection_def)
  next
    case (Some g)
    then show ?thesis
      by (simp add: addFactorySelection_cases occurs_append occurs_Cons identity_entry_of)
  qed
  show ?thesis
    using again by (simp add: addFactorySelection_cases)
qed

theorem addFactorySelection_membership_witness:
  "addFactorySelection (Some \<lparr>f_type = ''JV_F_P'', f_id = ''12'', f_name = ''Acme'', f_itemCount = Some 4\<rparr>) []
     = (True, [\<lparr>k_type = ''JV_F_P'', k_id = ''12'', k_name = ''Acme'', k_count = Some 4\<rparr>])
   \<and> addFactorySelection (Some \<lparr>f_type = ''JV_F_P'', f_id = ''12'', f_name = ''Other'', f_itemCount = None\<rparr>)
       [\<lparr>k_type = ''JV_F_P'', k_id = ''12'', k_name = ''Acme'', k_count = Some 4\<rparr>]
     = (False, [\<lparr>k_type = ''JV_F_P'', k_id = ''12'', k_name = ''Acme'', k_count = Some 4\<rparr>])
   \<and> addFactorySelection (Some \<lparr>f_type = [], f_id = ''12'', f_name = ''Acme'', f_itemCount = None\<rparr>) []
     = (False, [])"
  using addFactorySelection_membership
      [of "\<lparr>f_type = ''JV_F_P'', f_id = ''12'', f_name = ''Acme'', f_itemCount = Some 4\<rparr>" "[]"]
    addFactorySelection_membership
      [of "\<lparr>f_type = ''JV_F_P'', f_id = ''12'', f_name = ''Other'', f_itemCount = None\<rparr>"
          "[\<lparr>k_type = ''JV_F_P'', k_id = ''12'', k_name = ''Acme'', k_count = Some 4\<rparr>]"]
    addFactorySelection_membership
      [of "\<lparr>f_type = [], f_id = ''12'', f_name = ''Acme'', f_itemCount = None\<rparr>" "[]"]
  by (simp add: occurs_def identity_def entry_of_def)

text \<open>
  C6 as stated fails: the identity \<open>(JV_F_P, "")\<close> does not occur in the empty selection,
  yet the entry is not appended and the call returns "not added".
\<close>

theorem addFactorySelection_fresh_counterexample:
  "\<not> occurs ''JV_F_P'' [] []
   \<and> addFactorySelection
       (Some \<lparr>f_type = ''JV_F_P'', f_id = [], f_name = ''Acme'', f_itemCount = None\<rparr>) []
     = (False, [])"
  by (simp add: occurs_def addFactorySelection_def)

text \<open>
  C7. Removing an identity that is not in the selection returns "not found" and leaves
  the selection as it is. Removing one that is there takes out exactly one entry, the one
  with that type and id whatever its name and count, keeps the others in their order
  and returns "removed". Identities are distinct in every selection that the page builds,
  and then the removed identity is gone and all other entries stay.
\<close>

theorem removeFactorySelection_identity:
  "(\<not> occurs t i sels \<longrightarrow> removeFactorySelection t i sels = (False, sels))
   \<and> (occurs t i sels \<longrightarrow>
        (\<exists>pre e post. sels = pre @ e # post \<and> identity e = (t, i)
           \<and> (\<forall>x \<in> set pre. identity x \<noteq> (t, i))
           \<and> removeFactorySelection t i sels = (True, pre @ post)))
   \<and> (occurs t i sels \<and> distinct (map identity sels) \<longrightarrow>
        snd (removeFactorySelection t i sels) = filter (\<lambda>entry. identity entry \<noteq> (t, i)) sels
        \<and> \<not> occurs t i (snd (removeFactorySelection t i sels)))
   \<and> distinct (map identity (selections_after ops))"
  using removeFactorySelection_absent [of t i sels] removeFactorySelection_present [of t i sels]
    removeFactorySelection_distinct [of t i sels] selection_inv_reachable [of ops]
  by (simp add: selection_inv_def)

theorem removeFactorySelection_identity_witness:
  "removeFactorySelection ''XL_F_L'' ''7''
      [\<lparr>k_type = ''JV_F_P'', k_id = ''7'', k_name = ''A'', k_count = None\<rparr>,
       \<lparr>k_type = ''XL_F_L'', k_id = ''7'', k_name = ''B'', k_count = Some 2\<rparr>,
       \<lparr>k_type = ''XL_F_L'', k_id = ''8'', k_name = ''B'', k_count = Some 2\<rparr>]
     = (True, [\<lparr>k_type = ''JV_F_P'', k_id = ''7'', k_name = ''A'', k_count = None\<rparr>,
               \<lparr>k_type = ''XL_F_L'', k_id = ''8'', k_name = ''B'', k_count = Some 2\<rparr>])
   \<and> removeFactorySelection ''XL_F_L'' ''9''
        [\<lparr>k_type = ''JV_F_P'', k_id = ''7'', k_name = ''A'', k_count = None\<rparr>]
     = (False, [\<lparr>k_type = ''JV_F_P'', k_id = ''7'', k_name = ''A'', k_count = None\<rparr>])"
proof -
  let ?a = "\<lparr>k_type = ''JV_F_P'', k_id = ''7'', k_name = ''A'', k_count = None\<rparr>"
  let ?b = "\<lparr>k_type = ''XL_F_L'', k_id = ''7'', k_name = ''B'', k_count = Some 2\<rparr>"
  let ?c = "\<lparr>k_type = ''XL_F_L'', k_id = ''8'', k_name = ''B'', k_count = Some 2\<rparr>"
  have present: "occurs ''XL_F_L'' ''7'' [?a, ?b, ?c] \<and> distinct (map identity [?a, ?b, ?c])"
    by (simp add: occurs_def identity_def)
  have absent: "\<not> occurs ''XL_F_L'' ''9'' [?a]"
    by (simp add: occurs_def identity_def)
  note present_case = removeFactorySelection_identity [of "''XL_F_L''" "''7''" "[?a, ?b, ?c]" "[]"]
  from present_case present obtain pre post
    where "removeFactorySelection ''XL_F_L'' ''7'' [?a, ?b, ?c] = (True, pre @ post)"
    by blast
  then have removed: "fst (removeFactorySelection ''XL_F_L'' ''7'' [?a, ?b, ?c])"
    by simp
  from present_case present
  have "snd (removeFactorySelection ''XL_F_L'' ''7'' [?a, ?b, ?c])
      = filter (\<lambda>entry. identity entry \<noteq> (''XL_F_L'', ''7'')) [?a, ?b, ?c]"
    by blast
  then have rest: "snd (removeFactorySelection ''XL_F_L'' ''7'' [?a, ?b, ?c]) = [?a, ?c]"
    by (simp add: identity_def)
  from removeFactorySelection_identity [of "''XL_F_L''" "''9''" "[?a]" "[]"] absent
  have "removeFactorySelection ''XL_F_L'' ''9'' [?a] = (False, [?a])"
    by blast
  with removed rest show ?thesis by (simp add: prod_eq_iff)
qed

section \<open>The cleanup builder: its lines\<close>

lemma replace_char_append: "replace_char c r (xs @ ys) = replace_char c r xs @ replace_char c r ys"
  by (induction xs) simp_all

lemma escapeDoubleQuotes_spec: "escapeDoubleQuotes v = spec_kill_escape v"
proof (induction v)
  case Nil
  show ?case by (simp add: escapeDoubleQuotes_def spec_kill_escape_def)
next
  case (Cons x v)
  have distinct_chars: "backslash \<noteq> dquote" by (simp add: backslash_def dquote_def)
  from Cons show ?case
    using distinct_chars
    by (simp add: escapeDoubleQuotes_def spec_kill_escape_def spec_kill_escape_char_def
        replace_char_append [of dquote _ "[backslash, backslash]", simplified])
qed

lemma buildKillAddCommand_spec:
  "k_id entry \<noteq> [] \<Longrightarrow>
     buildKillAddCommand (k_type entry) (k_id entry) (k_name entry) = spec_kill_line entry"
  by (simp add: buildKillAddCommand_def spec_kill_line_def escapeDoubleQuotes_spec value_or_empty
      Let_def)

lemma spec_kill_line_nonempty: "spec_kill_line entry \<noteq> []"
  by (simp add: spec_kill_line_def)

lemma kill_commands:
  "\<forall>e \<in> set sels. k_id e \<noteq> [] \<Longrightarrow>
     filter (\<lambda>command. command \<noteq> [])
       (map (\<lambda>entry. buildKillAddCommand (k_type entry) (k_id entry) (k_name entry)) sels)
     = map spec_kill_line sels"
  by (induction sels) (simp_all add: buildKillAddCommand_spec spec_kill_line_nonempty)

text \<open>
  C3. With nothing selected and the run-cleanup toggle off, the cleanup builder returns
  the default command \<open>python killFabriks.py\<close>. Otherwise it returns the default command
  first exactly when the toggle is on, then one line for every selected entry in the
  order of selection, the lines joined by newlines; a line carries the entry's type, id
  and name with a backslash put before every backslash and double quote and nothing else
  changed. No entry of a selection built by adding and removing has an empty id.
\<close>

theorem killFabriks_lines:
  "((\<forall>e \<in> set sels. k_id e \<noteq> []) \<longrightarrow>
      killFabriks form sels =
        (if sels = [] \<and> \<not> input_checked form ''run-cleanup'' then ''python killFabriks.py''
         else join [CHR 0x0A]
                ((if input_checked form ''run-cleanup'' then [''python killFabriks.py''] else [])
                 @ map spec_kill_line sels)))
   \<and> (\<forall>e \<in> set (selections_after ops). k_id e \<noteq> [])"
proof -
  have reachable: "\<forall>e \<in> set (selections_after ops). k_id e \<noteq> []"
    using selection_inv_reachable [of ops] by (simp add: selection_inv_def)
  have lines: "killFabriks form sels =
        (if sels = [] \<and> \<not> input_checked form ''run-cleanup'' then ''python killFabriks.py''
         else join [CHR 0x0A]
                ((if input_checked form ''run-cleanup'' then [''python killFabriks.py''] else [])
                 @ map spec_kill_line sels))"
    if ids: "\<forall>e \<in> set sels. k_id e \<noteq> []"
  proof -
    have unfolded: "killFabriks form sels =
        (let commands = push_if (input_checked form ''run-cleanup'') [DEFAULT_COMMANDS_killFabriks]
                          @ map spec_kill_line sels
         in if length commands = 0 then DEFAULT_COMMANDS_killFabriks else join [CHR 0x0A] commands)"
      unfolding killFabriks_def kill_commands [OF ids] Let_def ..
    show ?thesis
    proof (cases "input_checked form ''run-cleanup''")
      case True
      with unfolded show ?thesis
        by (simp add: push_if_def DEFAULT_COMMANDS_killFabriks_def)
    next
      case False
      with unfolded show ?thesis
        by (cases sels) (simp_all add: push_if_def DEFAULT_COMMANDS_killFabriks_def)
    qed
  qed
  from reachable lines show ?thesis by blast
qed

theorem killFabriks_lines_witness:
  "killFabriks \<lparr>field_value = (\<lambda>name. None), checked_values = (\<lambda>name. []),
                 input_checked = (\<lambda>name. name = ''run-cleanup'')\<rparr>
     [\<lparr>k_type = ''T'', k_id = ''1'', k_name = [CHR ''a'', dquote, backslash, dollar],
       k_count = None\<rparr>]
   = ''python killFabriks.py'' @ [CHR 0x0A] @ ''python -c '' @ [dquote]
     @ ''from killFabriks import add_kill_fabriks; add_kill_fabriks('' @ [dquote] @ ''T''
     @ [dquote] @ '', '' @ [dquote] @ ''1'' @ [dquote] @ '', '' @ [dquote]
     @ [CHR ''a'', backslash, dquote, backslash, backslash, dollar] @ [dquote] @ '')'' @ [dquote]
   \<and> killFabriks \<lparr>field_value = (\<lambda>name. None), checked_values = (\<lambda>name. []),
                   input_checked = (\<lambda>name. False)\<rparr> []
     = ''python killFabriks.py''"
proof -
  let ?e = "\<lparr>k_type = ''T'', k_id = ''1'', k_name = [CHR ''a'', dquote, backslash, dollar],
             k_count = None\<rparr>"
  let ?on = "\<lparr>field_value = (\<lambda>name. None), checked_values = (\<lambda>name. []),
              input_checked = (\<lambda>name. name = ''run-cleanup'')\<rparr>"
  let ?off = "\<lparr>field_value = (\<lambda>name. None), checked_values = (\<lambda>name. []),
               input_checked = (\<lambda>name. False)\<rparr>"
  have escapes: "spec_kill_escape ''T'' = ''T''" "spec_kill_escape ''1'' = ''1''"
      "spec_kill_escape [CHR ''a'', dquote, backslash, dollar]
         = [CHR ''a'', backslash, dquote, backslash, backslash, dollar]"
    by (simp_all add: spec_kill_escape_def spec_kill_escape_char_def dquote_def backslash_def
        dollar_def)
  have line: "spec_kill_line ?e = ''python -c '' @ [dquote]
     @ ''from killFabriks import add_kill_fabriks; add_kill_fabriks('' @ [dquote] @ ''T''
     @ [dquote] @ '', '' @ [dquote] @ ''1'' @ [dquote] @ '', '' @ [dquote]
     @ [CHR ''a'', backslash, dquote, backslash, backslash, dollar] @ [dquote] @ '')'' @ [dquote]"
    unfolding spec_kill_line_def by (simp only: selection.simps escapes)
  have ids: "\<forall>e \<in> set [?e]. k_id e \<noteq> []" by simp
  from killFabriks_lines [of "[?e]" ?on "[]"] ids
  have "killFabriks ?on [?e] = join [CHR 0x0A] [''python killFabriks.py'', spec_kill_line ?e]"
    by simp
  then have first: "killFabriks ?on [?e] = ''python killFabriks.py'' @ [CHR 0x0A] @ spec_kill_line ?e"
    by simp
  from killFabriks_lines [of "[]" ?off "[]"]
  have second: "killFabriks ?off [] = ''python killFabriks.py''"
    by simp
  from first second show ?thesis unfolding line by (simp only: simp_thms)
qed

section \<open>The limit flag of the builders\<close>




















section \<open>Catalog loader: one sweep\<close>

lemma mset_insert_by: "mset (insert_by cmp x xs) = add_mset x (mset xs)"
  by (induction xs) simp_all

lemma mset_sort_by: "mset (sort_by cmp xs) = mset xs"
  unfolding sort_by_def by (induction xs) (simp_all add: mset_insert_by)

lemma fetch_source_records_cases:
  "fetch_source_records type response =
     (if source_failed response
      then Inl (case response of
                  FetchRejected \<Rightarrow> NetworkError
                | FetchResponse status body \<Rightarrow>
                    if \<not> response_ok status then HttpError status
                    else if body = None then InvalidJson else UnexpectedFormat)
      else Inr (source_entries type response))"
  by (auto simp: fetch_source_records_def source_failed_def source_entries_def response_ok_def
      split: fetch_response.splits option.splits json.splits)

lemma source_entries_failed: "source_failed response \<Longrightarrow> source_entries type response = []"
  by (auto simp: source_failed_def source_entries_def
      split: fetch_response.splits option.splits json.splits)

text \<open>One resumption of the sweep, by what the response was.\<close>

lemma fetch_settled_running:
  assumes "running st = Some \<lparr>sw_promise = p, sw_type = t, sw_rest = rest, sw_collected = col\<rparr>"
  shows "fetch_settled collate response st =
     sweep_loop collate p rest (col @ source_entries t response)
       (st\<lparr>factoryLoadErrors := factoryLoadErrors st
             @ (if source_failed response then [label_or_type t] else [])\<rparr>)"
  using assms
  by (simp add: fetch_settled_def fetch_source_records_cases source_entries_failed)

text \<open>The sweep from any of its waits to its end, given the responses still to come.\<close>

lemma sweep_to_end:
  assumes "running st = Some \<lparr>sw_promise = p, sw_type = t, sw_rest = rest, sw_collected = col\<rparr>"
    and "length rs = Suc (length rest)"
  shows "factoriesLoaded (run collate st (map FetchSettled rs))
    \<and> running (run collate st (map FetchSettled rs)) = None
    \<and> mset (cachedFactories (run collate st (map FetchSettled rs)))
        = mset col + mset (entries_of (t # map fst rest) rs)
    \<and> factoryLoadErrors (run collate st (map FetchSettled rs))
        = factoryLoadErrors st @ map label_or_type (failures_of (t # map fst rest) rs)
    \<and> fetched (run collate st (map FetchSettled rs))
        = fetched st @ map (\<lambda>(type, src). path src) rest
    \<and> settled (run collate st (map FetchSettled rs)) p
        = Some (Fulfilled (cachedFactories (run collate st (map FetchSettled rs))))
    \<and> factoriesPromise (run collate st (map FetchSettled rs)) = factoriesPromise st"
  using assms
proof (induction rest arbitrary: st t col rs)
  case Nil
  then obtain r where rs: "rs = [r]" by (cases rs) auto
  show ?case
    using Nil.prems(1)
    by (simp add: rs run_def fetch_settled_running sweep_loop_def entries_of_def failures_of_def
        mset_sort_by Let_def)
next
  case (Cons next_source rest)
  obtain t' src' where next_source: "next_source = (t', src')" by (cases next_source)
  from Cons.prems(2) obtain r rs' where rs: "rs = r # rs'" "length rs' = Suc (length rest)"
    by (cases rs) auto
  let ?st1 = "fetch_settled collate r st"
  have st1: "?st1 = sweep_loop collate p ((t', src') # rest) (col @ source_entries t r)
       (st\<lparr>factoryLoadErrors := factoryLoadErrors st
             @ (if source_failed r then [label_or_type t] else [])\<rparr>)"
    using Cons.prems(1) by (simp add: fetch_settled_running next_source)
  then have running1: "running ?st1 = Some \<lparr>sw_promise = p, sw_type = t', sw_rest = rest,
      sw_collected = col @ source_entries t r\<rparr>"
    by (simp add: sweep_loop_def)
  have run_eq: "run collate st (map FetchSettled rs) = run collate ?st1 (map FetchSettled rs')"
    by (simp add: rs run_def)
  have fields1: "factoryLoadErrors ?st1 = factoryLoadErrors st
        @ (if source_failed r then [label_or_type t] else [])"
      "fetched ?st1 = fetched st @ [path src']"
      "factoriesPromise ?st1 = factoriesPromise st"
    by (simp_all add: st1 sweep_loop_def)
  from Cons.IH [OF running1 rs(2)] show ?case
    unfolding run_eq fields1
    by (simp add: rs next_source entries_of_def failures_of_def)
qed

lemma first_source:
  "\<exists>t0 src0 rest0. FACTORY_SOURCES = (t0, src0) # rest0"
  by (simp add: FACTORY_SOURCES_def)

lemma loadAllFactories_fresh:
  assumes "\<not> factoriesLoaded st" and "factoriesPromise st = None"
    and "FACTORY_SOURCES = (t0, src0) # rest0"
  shows "loadAllFactories collate st =
     (Pending (promise_count st),
      st\<lparr>factoryLoadErrors := [], promise_count := Suc (promise_count st),
         fetched := fetched st @ [path src0],
         running := Some \<lparr>sw_promise = promise_count st, sw_type = t0, sw_rest = rest0,
                          sw_collected = []\<rparr>,
         factoriesPromise := Some (promise_count st)\<rparr>)"
  using assms(1,2) by (simp add: loadAllFactories_def sweep_loop_def Let_def assms(3))







section \<open>Catalog loader: calls and sweeps\<close>

lemma loadAllFactories_loaded:
  "factoriesLoaded st \<Longrightarrow> loadAllFactories collate st = (Catalog (cachedFactories st), st)"
  by (simp add: loadAllFactories_def)

lemma loadAllFactories_in_flight:
  "\<not> factoriesLoaded st \<Longrightarrow> factoriesPromise st = Some p
     \<Longrightarrow> loadAllFactories collate st = (Pending p, st)"
  by (simp add: loadAllFactories_def)

lemma loader_inv_initial: "loader_inv initial_loader"
  by (simp add: loader_inv_def initial_loader_def)

lemma loader_inv_call: "loader_inv st \<Longrightarrow> loader_inv (snd (loadAllFactories collate st))"
proof -
  assume inv: "loader_inv st"
  obtain t0 src0 rest0 where sources: "FACTORY_SOURCES = (t0, src0) # rest0"
    using first_source by blast
  show ?thesis
  proof (cases "factoriesLoaded st")
    case True
    with inv show ?thesis by (simp add: loadAllFactories_loaded)
  next
    case False
    show ?thesis
    proof (cases "factoriesPromise st")
      case (Some p)
      with False inv show ?thesis by (simp add: loadAllFactories_in_flight)
    next
      case None
      with False inv have "fetched st = []"
        by (auto simp: loader_inv_def split: option.splits)
      with False show ?thesis
        unfolding loadAllFactories_fresh [OF False None sources]
        by (simp add: loader_inv_def all_paths_def sources)
    qed
  qed
qed

lemma loader_inv_fetch_settled:
  "loader_inv st \<Longrightarrow> loader_inv (fetch_settled collate response st)"
proof (cases "running st")
  case None
  then show "loader_inv st \<Longrightarrow> ?thesis" by (simp add: fetch_settled_def)
next
  case (Some sw)
  assume inv: "loader_inv st"
  obtain p t rest col
    where sw: "sw = \<lparr>sw_promise = p, sw_type = t, sw_rest = rest, sw_collected = col\<rparr>"
    by (cases sw) auto
  from inv Some sw have facts: "\<not> factoriesLoaded st" "factoriesPromise st \<noteq> None"
      "fetched st @ map (\<lambda>(type, src). path src) rest = all_paths"
    by (simp_all add: loader_inv_def)
  from Some sw have running: "running st
      = Some \<lparr>sw_promise = p, sw_type = t, sw_rest = rest, sw_collected = col\<rparr>"
    by simp
  show ?thesis
  proof (cases rest)
    case Nil
    with facts show ?thesis
      unfolding fetch_settled_running [OF running]
      by (simp add: sweep_loop_def loader_inv_def Let_def)
  next
    case (Cons next_source rest')
    obtain t' src' where "next_source = (t', src')" by (cases next_source)
    with Cons facts show ?thesis
      unfolding fetch_settled_running [OF running]
      by (simp add: sweep_loop_def loader_inv_def)
  qed
qed

lemma loader_inv_run:
  "loader_inv st \<Longrightarrow> SweepFailed \<notin> set events \<Longrightarrow> loader_inv (run collate st events)"
proof (induction events arbitrary: st)
  case Nil
  then show ?case by (simp add: run_def)
next
  case (Cons e events)
  have "loader_inv (step collate st e)"
    using Cons.prems by (cases e) (simp_all add: loader_inv_call loader_inv_fetch_settled)
  with Cons show ?case by (simp add: run_def)
qed

lemma loader_inv_fetched:
  assumes "loader_inv st"
  shows "\<exists>later. fetched st @ later = all_paths"
    and "factoriesLoaded st \<Longrightarrow> fetched st = all_paths"
  using assms by (auto simp: loader_inv_def split: option.splits)

lemma sweep_failed_running:
  assumes "running st = Some sw" and "\<not> factoriesLoaded st"
  shows "factoriesPromise (sweep_failed st) = None"
    and "running (sweep_failed st) = None"
    and "\<not> factoriesLoaded (sweep_failed st)"
    and "settled (sweep_failed st) (sw_promise sw) = Some Rejected"
    and "fetched (sweep_failed st) = fetched st"
    and "promise_count (sweep_failed st) = promise_count st"
  using assms by (simp_all add: sweep_failed_def)

text \<open>
  C5. A call while a sweep is in flight returns the pending promise of that sweep and
  changes nothing, so it starts no fetch; a call after a load returns the stored catalog
  and changes nothing. Two calls in a row on a fresh page return the same promise and
  leave one fetch issued. Along any run of calls and fetch results in which no sweep
  fails, the fetches issued are an initial part of the list of source paths, each source
  at most once, and exactly that list once the catalog is loaded. When a running sweep
  fails, its promise is rejected and the marker cleared, and the next call starts a new
  sweep with a new promise and fetches the first source again.
\<close>

theorem loadAllFactories_single_sweep:
  "(\<not> factoriesLoaded st \<and> factoriesPromise st = Some p \<longrightarrow>
      loadAllFactories collate st = (Pending p, st))
   \<and> (factoriesLoaded st \<longrightarrow> loadAllFactories collate st = (Catalog (cachedFactories st), st))
   \<and> (loadAllFactories collate (snd (loadAllFactories collate initial_loader))
        = (fst (loadAllFactories collate initial_loader), snd (loadAllFactories collate initial_loader))
      \<and> fst (loadAllFactories collate initial_loader) = Pending 0
      \<and> fetched (snd (loadAllFactories collate initial_loader)) = take 1 all_paths)
   \<and> (SweepFailed \<notin> set events \<longrightarrow>
        (\<exists>later. fetched (run collate initial_loader events) @ later = all_paths)
        \<and> (factoriesLoaded (run collate initial_loader events) \<longrightarrow>
             fetched (run collate initial_loader events) = all_paths))
   \<and> (running st = Some sw \<and> \<not> factoriesLoaded st \<longrightarrow>
        factoriesPromise (sweep_failed st) = None
        \<and> settled (sweep_failed st) (sw_promise sw) = Some Rejected
        \<and> fst (loadAllFactories collate (sweep_failed st)) = Pending (promise_count st)
        \<and> running (snd (loadAllFactories collate (sweep_failed st))) \<noteq> None
        \<and> fetched (snd (loadAllFactories collate (sweep_failed st)))
            = fetched st @ take 1 all_paths)"
proof -
  obtain t0 src0 rest0 where sources: "FACTORY_SOURCES = (t0, src0) # rest0"
    using first_source by blast
  have first_path: "take 1 all_paths = [path src0]"
    by (simp add: all_paths_def sources)
  have fresh: "\<not> factoriesLoaded initial_loader" "factoriesPromise initial_loader = None"
    by (simp_all add: initial_loader_def)
  note called = loadAllFactories_fresh [OF fresh sources, of collate]
  have twice: "loadAllFactories collate (snd (loadAllFactories collate initial_loader))
        = (fst (loadAllFactories collate initial_loader), snd (loadAllFactories collate initial_loader))
      \<and> fst (loadAllFactories collate initial_loader) = Pending 0
      \<and> fetched (snd (loadAllFactories collate initial_loader)) = take 1 all_paths"
  proof -
    let ?st1 = "snd (loadAllFactories collate initial_loader)"
    have pending: "\<not> factoriesLoaded ?st1" "factoriesPromise ?st1 = Some 0"
        "fst (loadAllFactories collate initial_loader) = Pending 0"
        "fetched ?st1 = [path src0]"
      unfolding called by (simp_all add: initial_loader_def)
    from loadAllFactories_in_flight [OF pending(1,2), of collate] pending(3,4) first_path
    show ?thesis by simp
  qed
  have traces: "(\<exists>later. fetched (run collate initial_loader events) @ later = all_paths)
        \<and> (factoriesLoaded (run collate initial_loader events) \<longrightarrow>
             fetched (run collate initial_loader events) = all_paths)"
    if "SweepFailed \<notin> set events"
    using loader_inv_fetched [OF loader_inv_run [OF loader_inv_initial that, of collate]]
    by blast
  have retry: "factoriesPromise (sweep_failed st) = None
        \<and> settled (sweep_failed st) (sw_promise sw) = Some Rejected
        \<and> fst (loadAllFactories collate (sweep_failed st)) = Pending (promise_count st)
        \<and> running (snd (loadAllFactories collate (sweep_failed st))) \<noteq> None
        \<and> fetched (snd (loadAllFactories collate (sweep_failed st)))
            = fetched st @ take 1 all_paths"
    if "running st = Some sw \<and> \<not> factoriesLoaded st"
  proof -
    from that have r: "running st = Some sw" and l: "\<not> factoriesLoaded st" by simp_all
    note failed = sweep_failed_running [OF r l]
    show ?thesis
      unfolding loadAllFactories_fresh [OF failed(3) failed(1) sources] first_path
      by (simp add: failed)
  qed
  from twice traces retry show ?thesis
    using loadAllFactories_in_flight [of st p collate] loadAllFactories_loaded [of st collate]
    by blast
qed

lemma example_first_call:
  "snd (loadAllFactories no_collation initial_loader) =
     initial_loader\<lparr>factoryLoadErrors := [], promise_count := Suc 0,
       fetched := [''../Fabriks/JV_F_P/factories.json''],
       running := Some \<lparr>sw_promise = 0, sw_type = ''JV_F_P'', sw_rest = tl FACTORY_SOURCES,
                        sw_collected = []\<rparr>,
       factoriesPromise := Some 0\<rparr>"
proof -
  have fresh: "\<not> factoriesLoaded initial_loader" "factoriesPromise initial_loader = None"
    by (simp_all add: initial_loader_def)
  have sources: "FACTORY_SOURCES = (''JV_F_P'', snd (hd FACTORY_SOURCES)) # tl FACTORY_SOURCES"
    by (simp add: FACTORY_SOURCES_def)
  have first: "path (snd (hd FACTORY_SOURCES)) = ''../Fabriks/JV_F_P/factories.json''"
    by (simp add: FACTORY_SOURCES_def)
  show ?thesis
    unfolding loadAllFactories_fresh [OF fresh sources] first
    by (simp add: initial_loader_def)
qed

lemma example_run_loaded:
  "factoriesLoaded (run no_collation initial_loader (Call # map FetchSettled example_responses))"
proof -
  let ?st1 = "snd (loadAllFactories no_collation initial_loader)"
  have running1: "running ?st1 = Some \<lparr>sw_promise = 0, sw_type = ''JV_F_P'',
      sw_rest = tl FACTORY_SOURCES, sw_collected = []\<rparr>"
    unfolding example_first_call by simp
  have len: "length example_responses = Suc (length (tl FACTORY_SOURCES))"
    by (simp add: example_responses_def FACTORY_SOURCES_def)
  have "run no_collation initial_loader (Call # map FetchSettled example_responses)
      = run no_collation ?st1 (map FetchSettled example_responses)"
    by (simp add: run_def)
  with sweep_to_end [OF running1 len, of no_collation] show ?thesis by simp
qed

theorem loadAllFactories_single_sweep_witness:
  "loadAllFactories no_collation (snd (loadAllFactories no_collation initial_loader))
     = (Pending 0, snd (loadAllFactories no_collation initial_loader))
   \<and> fetched (snd (loadAllFactories no_collation initial_loader))
       = [''../Fabriks/JV_F_P/factories.json'']
   \<and> fetched (run no_collation initial_loader (Call # map FetchSettled example_responses))
       = all_paths
   \<and> fst (loadAllFactories no_collation
            (run no_collation initial_loader (Call # map FetchSettled example_responses)))
       = Catalog (cachedFactories
            (run no_collation initial_loader (Call # map FetchSettled example_responses)))
   \<and> fst (loadAllFactories no_collation
            (sweep_failed (snd (loadAllFactories no_collation initial_loader)))) = Pending 1
   \<and> fetched (snd (loadAllFactories no_collation
            (sweep_failed (snd (loadAllFactories no_collation initial_loader)))))
       = [''../Fabriks/JV_F_P/factories.json'', ''../Fabriks/JV_F_P/factories.json'']"
proof -
  let ?st1 = "snd (loadAllFactories no_collation initial_loader)"
  let ?sw = "\<lparr>sw_promise = 0, sw_type = ''JV_F_P'', sw_rest = tl FACTORY_SOURCES,
      sw_collected = []\<rparr>"
  let ?events = "Call # map FetchSettled example_responses"
  have in_flight: "\<not> factoriesLoaded ?st1 \<and> factoriesPromise ?st1 = Some 0"
    unfolding example_first_call by (simp add: initial_loader_def)
  have running1: "running ?st1 = Some ?sw \<and> \<not> factoriesLoaded ?st1"
    unfolding example_first_call by (simp add: initial_loader_def)
  have fields1: "promise_count ?st1 = 1" "fetched ?st1 = [''../Fabriks/JV_F_P/factories.json'']"
    unfolding example_first_call by simp_all
  have no_failure: "SweepFailed \<notin> set ?events" by auto
  have first_path: "take 1 all_paths = [''../Fabriks/JV_F_P/factories.json'']"
    by (simp add: all_paths_def FACTORY_SOURCES_def)
  note in_flight_case =
    loadAllFactories_single_sweep [of ?st1 0 no_collation ?events ?sw]
  note loaded_case =
    loadAllFactories_single_sweep
      [of "run no_collation initial_loader ?events" 0 no_collation ?events ?sw]
  from in_flight_case in_flight
  have a: "loadAllFactories no_collation ?st1 = (Pending 0, ?st1)" by blast
  from in_flight_case no_failure example_run_loaded
  have b: "fetched (run no_collation initial_loader ?events) = all_paths" by blast
  from loaded_case example_run_loaded
  have c: "loadAllFactories no_collation (run no_collation initial_loader ?events)
      = (Catalog (cachedFactories (run no_collation initial_loader ?events)),
         run no_collation initial_loader ?events)"
    by blast
  from in_flight_case running1
  have d: "fst (loadAllFactories no_collation (sweep_failed ?st1)) = Pending (promise_count ?st1)
      \<and> fetched (snd (loadAllFactories no_collation (sweep_failed ?st1)))
          = fetched ?st1 @ take 1 all_paths"
    by blast
  from a b c d show ?thesis
    unfolding fields1 first_path by simp
qed

section \<open>The ignore-list page: applying\<close>





lemma ignoreSet_loadIgnoreLists:
  "ignoreSet (loadIgnoreLists net st) = ignore_loop net IGNORE_SOURCES {}"
  "selections (loadIgnoreLists net st) = selections st"
  by (simp_all add: loadIgnoreLists_def)

lemma apply_fetch_reply:
  assumes "post_add_ignore env (apply_payload env st) = ApplyReply status body (Some data)"
    and "200 \<le> status \<and> status \<le> 299"
  shows "apply_fetch env (st\<lparr>isApplying := True\<rparr>) = Inr data"
proof -
  have "apply_payload env (st\<lparr>isApplying := True\<rparr>) = apply_payload env st"
    by (simp add: apply_payload_def)
  with assms show ?thesis by (simp add: apply_fetch_def response_ok_def)
qed

text \<open>The state after an apply that was answered 2xx with a body.\<close>

lemma applySelections_succeeded:
  assumes "post_add_ignore env (apply_payload env st) = ApplyReply status body (Some data)"
    and "200 \<le> status \<and> status \<le> 299"
    and "selections st \<noteq> []" and "\<not> isApplying st"
  shows "applySelections env st =
     renderSelections (apply_succeeded env data (st\<lparr>isApplying := True\<rparr>)\<lparr>isApplying := False\<rparr>)"
  using assms(3,4) by (simp add: applySelections_def apply_fetch_reply [OF assms(1,2)] Let_def)

lemma ignoreSet_apply_succeeded:
  "ignoreSet (apply_succeeded env data st) =
     (case ignore_keys data of
        Some keys \<Rightarrow> if keys = [] then ignore_loop (network env) IGNORE_SOURCES {} else set keys
      | None \<Rightarrow> ignore_loop (network env) IGNORE_SOURCES {})"
  by (simp add: apply_succeeded_def Let_def ignoreSet_loadIgnoreLists split: option.splits)


lemma renderSelections_fields:
  "selections (renderSelections st) = annotate (ignoreSet st) (selections st)"
  "ignoreSet (renderSelections st) = ignoreSet st"
  by (simp_all add: renderSelections_def annotate_def)





lemma example_reply:
  "post_add_ignore example_page_keys (apply_payload example_page_keys example_state)
     = ApplyReply 200 [] (Some \<lparr>results = Some example_results, ignore_keys = Some [''JV_F_P::7'']\<rparr>)"
  "post_add_ignore example_page (apply_payload example_page example_state)
     = ApplyReply 200 [] (Some \<lparr>results = Some example_results, ignore_keys = Some []\<rparr>)"
  by (simp_all add: example_page_keys_def example_page_def)

lemma example_state_fields:
  "selections example_state \<noteq> []" "\<not> isApplying example_state"
  "\<forall>e \<in> set (selections example_state). is_source_type (s_type e)"
  by (simp_all add: example_state_def is_source_type_def IGNORE_SOURCES_def)




lemma applySelections_ignoreSet:
  assumes "post_add_ignore env (apply_payload env st) = ApplyReply status body (Some data)"
    and "200 \<le> status \<and> status \<le> 299"
    and "selections st \<noteq> []" and "\<not> isApplying st"
  shows "ignoreSet (applySelections env st) =
     (case ignore_keys data of
        Some keys \<Rightarrow> if keys = [] then ignore_loop (network env) IGNORE_SOURCES {} else set keys
      | None \<Rightarrow> ignore_loop (network env) IGNORE_SOURCES {})"
  unfolding applySelections_succeeded [OF assms]
  by (simp add: renderSelections_fields ignoreSet_apply_succeeded)

lemma apply_succeeded_same_keys:
  assumes "ignore_keys data = None \<or> ignore_keys data = Some []"
    and "set keys = ignore_loop (network env) IGNORE_SOURCES {}"
    and "network env' = network env"
  shows "apply_succeeded env' (data\<lparr>ignore_keys := Some keys\<rparr>) st = apply_succeeded env data st"
  using assms by (auto simp: apply_succeeded_def loadIgnoreLists_def Let_def)

text \<open>
  C9, as amended. After an apply that was answered 2xx, the ignore set is the set of the
  keys in the response's \<open>ignore_keys\<close> when that is a non-empty array; when it is
  missing, not an array or empty, the ignore set is what loading the ignore sources gives,
  as at the first load. When the keys of the response are the keys that the ignore
  sources give, the two ways end in the same state and so in the same marks.
\<close>

theorem applySelections_ignore_keys:
  assumes "post_add_ignore env (apply_payload env st) = ApplyReply status body (Some data)"
    and "200 \<le> status \<and> status \<le> 299"
    and "selections st \<noteq> []" and "\<not> isApplying st"
  shows "(\<forall>keys. ignore_keys data = Some keys \<and> keys \<noteq> [] \<longrightarrow>
            ignoreSet (applySelections env st) = set keys)
    \<and> (ignore_keys data = None \<or> ignore_keys data = Some [] \<longrightarrow>
          ignoreSet (applySelections env st) = ignoreSet (loadIgnoreLists (network env) st0))
    \<and> (\<forall>env' status' body' keys.
          (ignore_keys data = None \<or> ignore_keys data = Some [])
          \<and> post_add_ignore env' (apply_payload env' st)
               = ApplyReply status' body' (Some (data\<lparr>ignore_keys := Some keys\<rparr>))
          \<and> 200 \<le> status' \<and> status' \<le> 299 \<and> network env' = network env
          \<and> set keys = ignoreSet (loadIgnoreLists (network env) st0)
          \<longrightarrow> applySelections env' st = applySelections env st
              \<and> annotations (applySelections env' st) = annotations (applySelections env st))"
proof -
  note after = applySelections_ignoreSet [OF assms]
  have provided: "ignoreSet (applySelections env st) = set keys"
    if "ignore_keys data = Some keys \<and> keys \<noteq> []" for keys
    using that by (simp add: after)
  have reloaded: "ignoreSet (applySelections env st) = ignoreSet (loadIgnoreLists (network env) st0)"
    if "ignore_keys data = None \<or> ignore_keys data = Some []"
    using that by (auto simp: after ignoreSet_loadIgnoreLists)
  have same: "applySelections env' st = applySelections env st
      \<and> annotations (applySelections env' st) = annotations (applySelections env st)"
    if h: "(ignore_keys data = None \<or> ignore_keys data = Some [])
          \<and> post_add_ignore env' (apply_payload env' st)
               = ApplyReply status' body' (Some (data\<lparr>ignore_keys := Some keys\<rparr>))
          \<and> 200 \<le> status' \<and> status' \<le> 299 \<and> network env' = network env
          \<and> set keys = ignoreSet (loadIgnoreLists (network env) st0)"
    for env' status' body' keys
  proof -
    from h have reply': "post_add_ignore env' (apply_payload env' st)
        = ApplyReply status' body' (Some (data\<lparr>ignore_keys := Some keys\<rparr>))"
      and ok': "200 \<le> status' \<and> status' \<le> 299" by simp_all
    from h have keys: "set keys = ignore_loop (network env) IGNORE_SOURCES {}"
      by (simp add: ignoreSet_loadIgnoreLists)
    from h have empty: "ignore_keys data = None \<or> ignore_keys data = Some []"
      and net: "network env' = network env" by simp_all
    have "applySelections env' st = applySelections env st"
      unfolding applySelections_succeeded [OF reply' ok' assms(3,4)]
        applySelections_succeeded [OF assms]
        apply_succeeded_same_keys [OF empty keys net] ..
    then show ?thesis by simp
  qed
  from provided reloaded same show ?thesis by blast
qed

lemma example_ignore_loop:
  "ignore_loop (network example_page) IGNORE_SOURCES {} = {''JV_F_P::7''}"
  by (simp add: IGNORE_SOURCES_def example_page_def fetchJson_def response_ok_def
      add_ignore_keys_def ignore_key_def get_prop_def coalesce_def keyFor_def
      String_number_def decimal_nat.simps digit_char_def)

theorem applySelections_ignore_keys_witness:
  "ignoreSet (applySelections example_page_keys example_state) = {''JV_F_P::7''}
   \<and> ignoreSet (applySelections example_page example_state)
       = ignoreSet (loadIgnoreLists (network example_page) example_state)
   \<and> annotations (applySelections example_page_keys example_state)
       = annotations (applySelections example_page example_state)"
proof -
  have ok: "(200::nat) \<le> 200 \<and> (200::nat) \<le> 299" by simp
  note with_keys = applySelections_ignore_keys
    [OF example_reply(1) ok example_state_fields(1,2), of example_state]
  note without_keys = applySelections_ignore_keys
    [OF example_reply(2) ok example_state_fields(1,2), of example_state]
  have net: "network example_page_keys = network example_page"
    by (simp add: example_page_keys_def)
  have keys: "set [''JV_F_P::7''] = ignoreSet (loadIgnoreLists (network example_page) example_state)"
    by (simp add: ignoreSet_loadIgnoreLists example_ignore_loop)
  have reply: "post_add_ignore example_page_keys (apply_payload example_page_keys example_state)
      = ApplyReply 200 []
          (Some (\<lparr>results = Some example_results, ignore_keys = Some []\<rparr>
                   \<lparr>ignore_keys := Some [''JV_F_P::7'']\<rparr>))"
    by (simp add: example_reply(1))
  from with_keys have a: "ignoreSet (applySelections example_page_keys example_state)
      = {''JV_F_P::7''}"
    by simp
  from without_keys have b: "ignoreSet (applySelections example_page example_state)
      = ignoreSet (loadIgnoreLists (network example_page) example_state)"
    by simp
  from without_keys reply net keys ok
  have c: "annotations (applySelections example_page_keys example_state)
      = annotations (applySelections example_page example_state)"
    by (simp only: apply_data.simps simp_thms) blast
  from a b c show ?thesis by simp
qed

text \<open>
  C9 as stated fails: the response provides \<open>ignore_keys\<close>, an empty array, and the ignore
  set afterwards is not its set of keys but what the ignore sources hold.
\<close>

theorem applySelections_empty_keys_counterexample:
  "post_add_ignore example_page (apply_payload example_page example_state)
     = ApplyReply 200 [] (Some \<lparr>results = Some example_results, ignore_keys = Some []\<rparr>)
   \<and> ignoreSet (applySelections example_page example_state) = {''JV_F_P::7''}
   \<and> ignoreSet (applySelections example_page example_state) \<noteq> set []"
proof -
  have ok: "(200::nat) \<le> 200 \<and> (200::nat) \<le> 299" by simp
  have "ignoreSet (applySelections example_page example_state) = {''JV_F_P::7''}"
    unfolding applySelections_ignoreSet [OF example_reply(2) ok example_state_fields(1,2)]
    by (simp add: example_ignore_loop)
  then show ?thesis by (simp add: example_reply(2))
qed

end
